theory Spec2Isabelle
  imports Main "HOL-Library.Word"
begin

unbundle bit_operations_syntax

section \<open>Data model\<close>

text \<open>
  The apply pipeline of torcx (\<^verbatim>\<open>internal/torcx/perform.go\<close>). Go strings are byte
  sequences, here \<^typ>\<open>string\<close>. A pointer that may be nil is an \<^typ>\<open>'a option\<close>.
\<close>

record Image =
  Name :: string
  Reference :: string
  Remote :: string

text \<open>
  The archive formats. The source dispatches on two named formats and has a
  \<^verbatim>\<open>default\<close> branch for every other value of the type, which
  \<open>ArchiveFormatOther\<close> stands for.
\<close>

datatype ArchiveFormat = ArchiveFormatTgz | ArchiveFormatSquashfs | ArchiveFormatOther string

record Archive =
  Filepath :: string
  Format :: ArchiveFormat

record Assets =
  Binaries :: "string list"
  Network :: "string list"
  Units :: "string list"
  Sysusers :: "string list"
  Tmpfiles :: "string list"
  UdevRules :: "string list"

record ApplyConfig =
  BaseDir :: string
  RunDir :: string
  ConfDir :: string
  StorePaths :: "string list"
  LowerProfiles :: "string list"
  UpperProfile :: string

subsection \<open>Errors\<close>

text \<open>
  Go errors as values. \<open>ErrNew m\<close> is \<^verbatim>\<open>errors.New(m)\<close>, \<open>ErrWrap e m\<close> is
  \<^verbatim>\<open>errors.Wrap(e, m)\<close>, \<open>ErrWrapf e f a\<close> is \<^verbatim>\<open>errors.Wrapf(e, f, a)\<close>.
  \<open>ErrUnrecognizedFormat a\<close> is
  \<^verbatim>\<open>fmt.Errorf("unrecognized format for archive: %q", a)\<close> and \<open>ErrFailedInstall n\<close> is
  \<^verbatim>\<open>fmt.Errorf("failed to install %d images", n)\<close>. \<open>ErrNotExist p\<close> is the error of
  the operating system for a path that does not exist, \<open>ErrSys m\<close> any other error
  that the operating system, a reader or a helper outside this file reports.
  \<open>ErrTooLong\<close> and \<open>ErrBadReadCount\<close> are \<^verbatim>\<open>bufio.ErrTooLong\<close> and
  \<^verbatim>\<open>bufio.ErrBadReadCount\<close>, \<open>ErrEOF\<close> and \<open>ErrNoProgress\<close> are \<^verbatim>\<open>io.EOF\<close> and
  \<^verbatim>\<open>io.ErrNoProgress\<close>.
\<close>

datatype error =
    ErrNew string
  | ErrWrap error string
  | ErrWrapf error string string
  | ErrUnrecognizedFormat Archive
  | ErrFailedInstall nat
  | ErrNotExist string
  | ErrSys string
  | ErrTooLong
  | ErrEOF
  | ErrNoProgress
  | ErrBadReadCount

definition ErrUnknownOSVersionID :: error where
  "ErrUnknownOSVersionID =
     ErrNew (''unable to parse '' @ [CHR 0x22] @ ''VERSION_ID'' @ [CHR 0x22] @ '' from os-release'')"

definition IsNotExist :: "error \<Rightarrow> bool" where
  "IsNotExist e = (case e of ErrNotExist p \<Rightarrow> True | _ \<Rightarrow> False)"

section \<open>The os-release parser\<close>

text \<open>
  \<^verbatim>\<open>parseOsVersionID(rd io.Reader)\<close> reads \<open>rd\<close> through a \<^verbatim>\<open>bufio.Scanner\<close> with
  the default split function \<^verbatim>\<open>bufio.ScanLines\<close>. A reader is the list of what its
  successive calls of \<^verbatim>\<open>Read\<close> return: the bytes delivered and the error returned
  with them (\<open>ErrEOF\<close> is \<^verbatim>\<open>io.EOF\<close>). After the list, every \<^verbatim>\<open>Read\<close> delivers
  no byte and returns \<^verbatim>\<open>io.EOF\<close>.
\<close>

type_synonym Reader = "(string \<times> error option) list"

text \<open>
  The state of a \<^verbatim>\<open>bufio.Scanner\<close>: its reader, the bytes \<^verbatim>\<open>s.buf[s.start:s.end]\<close> that
  are read and not yet handed out, \<^verbatim>\<open>s.start\<close>, \<^verbatim>\<open>len(s.buf)\<close>, \<^verbatim>\<open>s.err\<close> and
  \<^verbatim>\<open>s.token\<close>.
\<close>

record Scanner =
  sc_reads :: Reader
  sc_pending :: string
  sc_start :: nat
  sc_buflen :: nat
  sc_err :: "error option"
  sc_token :: string

definition MaxScanTokenSize :: nat where
  "MaxScanTokenSize = 64 * 1024"

definition startBufSize :: nat where
  "startBufSize = 4096"

definition maxConsecutiveEmptyReads :: nat where
  "maxConsecutiveEmptyReads = 100"

definition NewScanner :: "Reader \<Rightarrow> Scanner" where
  "NewScanner rd =
     \<lparr>sc_reads = rd, sc_pending = [], sc_start = 0, sc_buflen = 0, sc_err = None,
      sc_token = []\<rparr>"

text \<open>\<^verbatim>\<open>dropCR\<close> of package bufio: one trailing carriage return is dropped.\<close>

definition dropCR :: "string \<Rightarrow> string" where
  "dropCR s = (if s \<noteq> [] \<and> last s = CHR 0x0D then butlast s else s)"

text \<open>
  \<^verbatim>\<open>bufio.ScanLines(data, atEOF)\<close>: how far to advance, and the token (\<open>None\<close> for
  \<^verbatim>\<open>nil\<close>, which asks for more data). It returns no error.
\<close>

definition ScanLines :: "string \<Rightarrow> bool \<Rightarrow> nat \<times> string option" where
  "ScanLines data atEOF =
     (if atEOF \<and> data = [] then (0, None)
      else if CHR 0x0A \<in> set data then
        (length (takeWhile (\<lambda>c. c \<noteq> CHR 0x0A) data) + 1,
         Some (dropCR (takeWhile (\<lambda>c. c \<noteq> CHR 0x0A) data)))
      else if atEOF then (length data, Some (dropCR data))
      else (0, None))"

text \<open>
  The inner loop of \<^verbatim>\<open>Scan\<close> that reads into the free part of the buffer, of size
  \<open>cap\<close>: a read that claims more bytes than fit ends with \<^verbatim>\<open>ErrBadReadCount\<close>, a
  read with an error or with data ends the loop, and more than
  \<^verbatim>\<open>maxConsecutiveEmptyReads\<close> empty reads end it with \<^verbatim>\<open>io.ErrNoProgress\<close>. The result
  is the bytes added, the error to set and the reader afterwards.
\<close>

fun readMore :: "nat \<Rightarrow> nat \<Rightarrow> Reader \<Rightarrow> string \<times> error option \<times> Reader" where
  "readMore cap loop [] = ([], Some ErrEOF, [])"
| "readMore cap loop ((d, e) # rest) =
     (if cap < length d then ([], Some ErrBadReadCount, rest)
      else if e \<noteq> None then (d, e, rest)
      else if length d > 0 then (d, None, rest)
      else if maxConsecutiveEmptyReads < loop + 1 then ([], Some ErrNoProgress, rest)
      else readMore cap (loop + 1) rest)"

text \<open>
  One pass of the \<^verbatim>\<open>for\<close> loop of \<^verbatim>\<open>Scan\<close>: \<open>Inl\<close> is what \<^verbatim>\<open>Scan\<close> returns from
  this pass, \<open>Inr\<close> the state with which the loop goes on after it has read. The
  pass asks the split function when there is data or an error is stored; without a
  token it stops when an error is stored; otherwise it shifts the data to the
  beginning of the buffer if useful, fails with \<^verbatim>\<open>ErrTooLong\<close> when the buffer is full
  and cannot grow, doubles a full buffer (from nothing to \<^verbatim>\<open>startBufSize\<close>, at most
  to \<^verbatim>\<open>maxTokenSize\<close>), and reads.
\<close>

definition scanStep :: "Scanner \<Rightarrow> (bool \<times> Scanner) + Scanner" where
  "scanStep s =
     (let atEOF = (sc_err s \<noteq> None);
          sp = (if sc_pending s \<noteq> [] \<or> atEOF then ScanLines (sc_pending s) atEOF
                else (0, None))
      in case snd sp of
           Some token \<Rightarrow>
             Inl (True, s\<lparr>sc_pending := drop (fst sp) (sc_pending s),
                          sc_start := sc_start s + fst sp, sc_token := token\<rparr>)
         | None \<Rightarrow>
             if atEOF then Inl (False, s\<lparr>sc_pending := [], sc_start := 0, sc_token := []\<rparr>)
             else
              (let start1 = (if sc_start s > 0
                                \<and> (sc_start s + length (sc_pending s) = sc_buflen s
                                    \<or> sc_start s > sc_buflen s div 2)
                             then 0 else sc_start s);
                   end1 = start1 + length (sc_pending s)
               in if end1 = sc_buflen s \<and> MaxScanTokenSize \<le> sc_buflen s
                  then Inl (False, s\<lparr>sc_start := start1, sc_err := Some ErrTooLong,
                                      sc_token := []\<rparr>)
                  else
                   (let grow = (end1 = sc_buflen s);
                        newlen = (if grow
                                  then min MaxScanTokenSize
                                         (if 2 * sc_buflen s = 0 then startBufSize
                                          else 2 * sc_buflen s)
                                  else sc_buflen s);
                        start2 = (if grow then 0 else start1);
                        r = readMore (newlen - (start2 + length (sc_pending s))) 0 (sc_reads s)
                    in Inr (s\<lparr>sc_reads := snd (snd r), sc_pending := sc_pending s @ fst r,
                               sc_start := start2, sc_buflen := newlen,
                               sc_err := fst (snd r), sc_token := []\<rparr>))))"

function Scan :: "Scanner \<Rightarrow> bool \<times> Scanner" where
  "Scan s = (case scanStep s of Inl res \<Rightarrow> res | Inr s' \<Rightarrow> Scan s')"
  by pat_completeness auto
termination
proof (relation "measure (\<lambda>s. 2 * length (sc_reads s) + (if sc_err s = None then 1 else 0))")
  show "wf (measure (\<lambda>s. 2 * length (sc_reads s) + (if sc_err s = None then 1 else 0)))"
    by simp
next
  fix s s' :: Scanner
  assume step: "scanStep s = Inr s'"
  have rm: "length (snd (snd (readMore cap loop rs))) \<le> length rs
      \<and> (fst (snd (readMore cap loop rs)) = None
           \<longrightarrow> length (snd (snd (readMore cap loop rs))) < length rs)"
    for cap loop rs
    by (induction cap loop rs rule: readMore.induct) auto
  from step have none: "sc_err s = None"
    by (auto simp: scanStep_def Let_def split: option.splits if_splits)
  from step obtain cap where s': "sc_reads s' = snd (snd (readMore cap 0 (sc_reads s)))"
      "sc_err s' = fst (snd (readMore cap 0 (sc_reads s)))"
    by (auto simp: scanStep_def Let_def split: option.splits if_splits)
  show "(s', s) \<in> measure (\<lambda>s. 2 * length (sc_reads s) + (if sc_err s = None then 1 else 0))"
    using rm [of cap 0 "sc_reads s"] none s' by auto
qed

text \<open>\<^verbatim>\<open>sc.Err()\<close>: the stored error, unless it is \<^verbatim>\<open>io.EOF\<close>. \<^verbatim>\<open>sc.Text()\<close>: the token.\<close>

definition Err :: "Scanner \<Rightarrow> error option" where
  "Err s = (if sc_err s = Some ErrEOF then None else sc_err s)"

definition Text :: "Scanner \<Rightarrow> string" where
  "Text s = sc_token s"

text \<open>
  The states of the scanner in a run of \<^verbatim>\<open>for sc.Scan() { ... }\<close> that is not left
  early: the state after each call of \<^verbatim>\<open>Scan\<close> that returned true, and the state
  after the call that returned false.
\<close>

function scanRun :: "Scanner \<Rightarrow> Scanner list \<times> Scanner" where
  "scanRun sc =
     (case Scan sc of
        (False, sc1) \<Rightarrow> ([], sc1)
      | (True, sc1) \<Rightarrow> (sc1 # fst (scanRun sc1), snd (scanRun sc1)))"
  by pat_completeness auto
termination
proof -
  let ?m = "\<lambda>s. length (sc_pending s) + sum_list (map (\<lambda>r. length (fst r)) (sc_reads s))"
  have rm: "length (fst (readMore cap loop rs))
        + sum_list (map (\<lambda>r. length (fst r)) (snd (snd (readMore cap loop rs))))
      \<le> sum_list (map (\<lambda>r. length (fst r)) rs)" for cap loop rs
    by (induction cap loop rs rule: readMore.induct) auto
  have more: "?m s' \<le> ?m s" if "scanStep s = Inr s'" for s s'
  proof -
    from that obtain cap where
      "sc_reads s' = snd (snd (readMore cap 0 (sc_reads s)))"
      "sc_pending s' = sc_pending s @ fst (readMore cap 0 (sc_reads s))"
      by (auto simp: scanStep_def Let_def split: option.splits if_splits)
    then show ?thesis using rm [of cap 0 "sc_reads s"] by simp
  qed
  have tw: "length (takeWhile (\<lambda>c. c \<noteq> x) xs) < length xs" if "x \<in> set xs"
    for x :: char and xs
    using that by (induction xs) auto
  have token: "?m s1 < ?m s" if "scanStep s = Inl (True, s1)" for s s1
  proof -
    let ?sp = "ScanLines (sc_pending s) (sc_err s \<noteq> None)"
    from that have s1: "sc_pending s1 = drop (fst ?sp) (sc_pending s)"
        "sc_reads s1 = sc_reads s" and tok: "snd ?sp \<noteq> None"
      by (auto simp: scanStep_def Let_def split: option.splits if_splits)
    from tok have "1 \<le> fst ?sp \<and> fst ?sp \<le> length (sc_pending s)"
      using tw [of "CHR 0x0A" "sc_pending s"]
      by (auto simp: ScanLines_def Suc_le_eq split: if_splits)
    then have "length (drop (fst ?sp) (sc_pending s)) < length (sc_pending s)"
      unfolding length_drop by arith
    then show ?thesis unfolding s1 by arith
  qed
  have key: "Scan s = (True, s1) \<Longrightarrow> ?m s1 < ?m s" for s s1
  proof (induction s rule: Scan.induct)
    case (1 s)
    show ?case
    proof (cases "scanStep s")
      case (Inl res)
      with "1.prems" have "scanStep s = Inl (True, s1)" by simp
      then show ?thesis by (rule token)
    next
      case (Inr s')
      with "1.prems" have "Scan s' = (True, s1)" by simp
      with "1.IH" Inr have "?m s1 < ?m s'" by simp
      with more [OF Inr] show ?thesis by simp
    qed
  qed
  show ?thesis
  proof (relation "measure ?m")
    show "wf (measure ?m)" by simp
  next
    fix sc y :: Scanner and x :: bool
    assume "(x, y) = Scan sc" and "x = True"
    then have "Scan sc = (True, y)" by simp
    from key [OF this] show "(y, sc) \<in> measure ?m" by simp
  next
    fix sc y :: Scanner and x :: bool
    assume "(x, y) = Scan sc" and "x = True"
    then have "Scan sc = (True, y)" by simp
    from key [OF this] show "(y, sc) \<in> measure ?m" by simp
  qed
qed

text \<open>\<^verbatim>\<open>strings.SplitN(s, sep, 2)\<close> for a separator of one byte.\<close>

definition SplitN2 :: "string \<Rightarrow> char \<Rightarrow> string list" where
  "SplitN2 s sep =
     (if sep \<in> set s
      then [takeWhile (\<lambda>c. c \<noteq> sep) s, tl (dropWhile (\<lambda>c. c \<noteq> sep) s)]
      else [s])"

text \<open>
  The scan loop of \<^verbatim>\<open>parseOsVersionID\<close> over the states of the scanner after the
  calls of \<^verbatim>\<open>Scan\<close> that return true, \<open>fin\<close> being the state after the call that
  returns false. It returns the variable \<open>ver\<close> and the state in which it leaves
  the loop: the state after the last call of \<^verbatim>\<open>Scan\<close> that it made.
\<close>

fun scanLoop :: "Scanner list \<Rightarrow> Scanner \<Rightarrow> string \<times> Scanner" where
  "scanLoop [] fin = ('''', fin)"
| "scanLoop (sc # rest) fin =
     (let line = Text sc in
      if line = '''' then scanLoop rest fin
      else if length (SplitN2 line (CHR ''='')) \<noteq> 2 then scanLoop rest fin
      else if SplitN2 line (CHR ''='') ! 0 = ''VERSION_ID''
        then (SplitN2 line (CHR ''='') ! 1, sc)
      else scanLoop rest fin)"

definition parseOsVersionID :: "Reader \<Rightarrow> error + string" where
  "parseOsVersionID rd =
     (let run = scanRun (NewScanner rd);
          ver = fst (scanLoop (fst run) (snd run));
          sc = snd (scanLoop (fst run) (snd run))
      in case Err sc of
           Some e \<Rightarrow> Inl (ErrWrap e ''failed to parse os-release file'')
         | None \<Rightarrow> if ver = '''' then Inl ErrUnknownOSVersionID else Inr ver)"

text \<open>
  What the loop can see of a stream: each line that the scanner hands out, with the
  error that \<^verbatim>\<open>sc.Err()\<close> would report at that moment, and the error that it reports
  once \<^verbatim>\<open>Scan\<close> has returned false.
\<close>

definition scanned :: "Reader \<Rightarrow> (string \<times> error option) list" where
  "scanned rd = map (\<lambda>sc. (Text sc, Err sc)) (fst (scanRun (NewScanner rd)))"

definition scanError :: "Reader \<Rightarrow> error option" where
  "scanError rd = Err (snd (scanRun (NewScanner rd)))"

text \<open>A line \<^verbatim>\<open>VERSION_ID=...\<close>: the text before its first \<^verbatim>\<open>=\<close> is \<^verbatim>\<open>VERSION_ID\<close>.\<close>

definition isVersionLine :: "string \<Rightarrow> bool" where
  "isVersionLine l = (take 11 l = ''VERSION_ID='')"

text \<open>A line that the loop looks at: not blank, and with a \<^verbatim>\<open>=\<close>.\<close>

definition significant :: "string \<Rightarrow> bool" where
  "significant l = (l \<noteq> [] \<and> CHR ''='' \<in> set l)"

section \<open>Calls that leave this file\<close>

text \<open>
  Modelled from the spec: the sealed run profile is
  \<^verbatim>\<open>{"kind": "profile-manifest-v0", "value": {"images": [...]}}\<close> and the profiles that
  are read have kind \<^verbatim>\<open>profile-manifest-v1\<close>. The declarations of
  \<^verbatim>\<open>ProfileManifestV0JSON\<close>, \<^verbatim>\<open>ProfileManifestV0K\<close> and \<^verbatim>\<open>ImagesToJSONV0\<close> are not
  among the sources. An image of the run profile is a JSON object of string members.
\<close>

type_synonym ImageV0 = "(string \<times> string) list"

record ImagesV0 =
  Images :: "ImageV0 list"

record ProfileManifestV0JSON =
  Kind :: string
  Value :: ImagesV0

definition ProfileManifestV0K :: string where
  "ProfileManifestV0K = ''profile-manifest-v0''"

definition ProfileManifestV1K :: string where
  "ProfileManifestV1K = ''profile-manifest-v1''"

text \<open>The values of structured log fields: a string or a list of strings.\<close>

datatype logval = LStr string | LList "string list"

type_synonym Fields = "(string \<times> logval) list"

text \<open>
  Every call that \<^verbatim>\<open>perform.go\<close> makes to the operating system, to the Go library or
  to a function of the repository outside the file is an event. A file handle is
  named by the path it was opened at, a loop device by its name. The trace of a run
  is the list of its events, oldest first.
\<close>

datatype call =
    os_Stat string
  | os_MkdirAll string nat
  | unix_Mount string string string "64 word" string
  | os_Chmod string nat
  | os_Create string
  | os_Open string
  | File_WriteString string string
  | Encoder_Encode string string string ProfileManifestV0JSON
  | Writer_Flush string
  | File_Close string
  | gzip_NewReader string
  | gzip_Close string
  | pkgtar_ChrootUntar string string bool
  | loopback_AttachLoopDevice string
  | loop_Close string
  | call_mergeProfiles
  | call_NewStoreCache "string list"
  | call_ArchiveFor Image
  | call_retrieveAssets string
  | call_propagateBins string "string list"
  | call_propagateNetworkdUnits string "string list"
  | call_propagateSystemdUnits string "string list"
  | call_propagateSysusersUnits string "string list"
  | call_propagateTmpfilesUnits string "string list"
  | call_propagateUdevRules string "string list"
  | log_Error Fields string error
  | log_Debug Fields string

text \<open>
  The world outside the file. \<open>fails\<close> tells for a call that returns only an error
  whether it fails, given the trace so far; the other oracles give the value a call
  returns. The methods of \<^verbatim>\<open>ApplyConfig\<close>, the \<^verbatim>\<open>Seal\<close> constants and
  \<^verbatim>\<open>filepath.Join\<close>, \<^verbatim>\<open>filepath.Dir\<close> are declared outside the file and are
  parameters too. \<open>'sc\<close> is the type of the store cache.
\<close>

record 'sc Env =
  fails :: "call list \<Rightarrow> call \<Rightarrow> error option"
  mergeProfilesRes :: "call list \<Rightarrow> ApplyConfig \<Rightarrow> error + Image list"
  NewStoreCacheRes :: "call list \<Rightarrow> string list \<Rightarrow> error + 'sc"
  ArchiveForRes :: "call list \<Rightarrow> 'sc \<Rightarrow> Image \<Rightarrow> error + Archive"
  retrieveAssetsRes :: "call list \<Rightarrow> ApplyConfig \<Rightarrow> string \<Rightarrow> error + Assets"
  AttachLoopDeviceRes :: "call list \<Rightarrow> string \<Rightarrow> error + string"
  RunProfile :: "ApplyConfig \<Rightarrow> string"
  RunBinDir :: "ApplyConfig \<Rightarrow> string"
  RunUnpackDir :: "ApplyConfig \<Rightarrow> string"
  UserProfileDir :: "ApplyConfig \<Rightarrow> string"
  filepath_Join :: "string \<Rightarrow> string \<Rightarrow> string"
  filepath_Dir :: "string \<Rightarrow> string"
  SealPath :: string
  SealLowerProfiles :: string
  SealUpperProfile :: string
  SealRunProfilePath :: string
  SealBindir :: string
  SealUnpackdir :: string
  ToJSONV0 :: "Image \<Rightarrow> ImageV0"
  QuoteNonASCII :: "string \<Rightarrow> string"

definition ImagesToJSONV0 :: "'sc Env \<Rightarrow> Image list \<Rightarrow> ImagesV0" where
  "ImagesToJSONV0 env images = \<lparr>Images = map (ToJSONV0 env) images\<rparr>"

text \<open>File modes \<^verbatim>\<open>0755\<close> and \<^verbatim>\<open>0444\<close> (octal), and the mount flags of package unix.\<close>

definition mode_0755 :: nat where
  "mode_0755 = 7 * 64 + 5 * 8 + 5"

definition mode_0444 :: nat where
  "mode_0444 = 4 * 64 + 4 * 8 + 4"

definition MS_RDONLY :: "64 word" where
  "MS_RDONLY = 1"

definition MS_REMOUNT :: "64 word" where
  "MS_REMOUNT = 32"

text \<open>A call that returns only an error: the event is recorded, the oracle decides.\<close>

definition sys :: "'sc Env \<Rightarrow> call \<Rightarrow> call list \<Rightarrow> error option \<times> call list" where
  "sys env c tr = (fails env tr c, tr @ [c])"

definition mergeProfiles ::
  "'sc Env \<Rightarrow> ApplyConfig \<Rightarrow> call list \<Rightarrow> (error + Image list) \<times> call list" where
  "mergeProfiles env cfg tr = (mergeProfilesRes env tr cfg, tr @ [call_mergeProfiles])"

definition NewStoreCache ::
  "'sc Env \<Rightarrow> string list \<Rightarrow> call list \<Rightarrow> (error + 'sc) \<times> call list" where
  "NewStoreCache env paths tr = (NewStoreCacheRes env tr paths, tr @ [call_NewStoreCache paths])"

definition ArchiveFor ::
  "'sc Env \<Rightarrow> 'sc \<Rightarrow> Image \<Rightarrow> call list \<Rightarrow> (error + Archive) \<times> call list" where
  "ArchiveFor env storeCache im tr = (ArchiveForRes env tr storeCache im, tr @ [call_ArchiveFor im])"

definition retrieveAssets ::
  "'sc Env \<Rightarrow> ApplyConfig \<Rightarrow> string \<Rightarrow> call list \<Rightarrow> (error + Assets) \<times> call list" where
  "retrieveAssets env cfg imageRoot tr =
     (retrieveAssetsRes env tr cfg imageRoot, tr @ [call_retrieveAssets imageRoot])"

definition AttachLoopDevice ::
  "'sc Env \<Rightarrow> string \<Rightarrow> call list \<Rightarrow> (error + string) \<times> call list" where
  "AttachLoopDevice env path tr =
     (AttachLoopDeviceRes env tr path, tr @ [loopback_AttachLoopDevice path])"

section \<open>The apply pipeline\<close>

text \<open>
  The statement
  \<^verbatim>\<open>if _, err := os.Stat(d); err != nil && os.IsNotExist(err) {
    if err := os.MkdirAll(d, 0755); err != nil { return err } }\<close>
  which \<^verbatim>\<open>setupPaths\<close>, \<^verbatim>\<open>unpackTgz\<close>, \<^verbatim>\<open>mountSquashfs\<close> and \<^verbatim>\<open>SealSystemState\<close> all
  have. The result is the error that the enclosing function returns, if any.
\<close>

definition statMkdirAll :: "'sc Env \<Rightarrow> string \<Rightarrow> call list \<Rightarrow> error option \<times> call list" where
  "statMkdirAll env d tr =
     (case sys env (os_Stat d) tr of
        (None, tr1) \<Rightarrow> (None, tr1)
      | (Some err, tr1) \<Rightarrow>
          if IsNotExist err then sys env (os_MkdirAll d mode_0755) tr1 else (None, tr1))"

text \<open>The loop of \<^verbatim>\<open>setupPaths\<close> over the paths.\<close>

fun mkdirPaths :: "'sc Env \<Rightarrow> string list \<Rightarrow> call list \<Rightarrow> error option \<times> call list" where
  "mkdirPaths env [] tr = (None, tr)"
| "mkdirPaths env (d # ds) tr =
     (case statMkdirAll env d tr of
        (Some err, tr1) \<Rightarrow> (Some err, tr1)
      | (None, tr1) \<Rightarrow> mkdirPaths env ds tr1)"

definition setupPaths ::
  "'sc Env \<Rightarrow> ApplyConfig option \<Rightarrow> call list \<Rightarrow> error option \<times> call list" where
  "setupPaths env applyCfg tr =
     (case applyCfg of
        None \<Rightarrow> (Some (ErrNew ''missing apply configuration''), tr)
      | Some cfg \<Rightarrow>
         (case mkdirPaths env
                 [RunDir cfg, BaseDir cfg, ConfDir cfg, RunBinDir env cfg,
                  RunUnpackDir env cfg, UserProfileDir env cfg] tr of
            (Some err, tr1) \<Rightarrow> (Some err, tr1)
          | (None, tr1) \<Rightarrow>
             (case sys env (unix_Mount ''none'' (RunUnpackDir env cfg) ''tmpfs'' 0 ''size=450M'') tr1 of
                (Some err, tr2) \<Rightarrow> (Some (ErrWrap err ''failed to mount unpack dir''), tr2)
              | (None, tr2) \<Rightarrow>
                 (case sys env (os_Chmod (RunUnpackDir env cfg) mode_0755) tr2 of
                    (Some err, tr3) \<Rightarrow> (Some (ErrWrap err ''failed to chmod unpack dir''), tr3)
                  | (None, tr3) \<Rightarrow>
                      (None, tr3 @ [log_Debug [(''target'', LStr (RunUnpackDir env cfg))]
                                      ''mounted tmpfs''])))))"

text \<open>
  \<^verbatim>\<open>unpackTgz\<close>. The deferred \<^verbatim>\<open>gr.Close()\<close> and \<^verbatim>\<open>fp.Close()\<close> run, in this order,
  on every return after the call that the \<^verbatim>\<open>defer\<close> follows; what they return is
  dropped.
\<close>

definition unpackTgz ::
  "'sc Env \<Rightarrow> ApplyConfig option \<Rightarrow> string \<Rightarrow> string \<Rightarrow> call list \<Rightarrow>
     (error + string) \<times> call list" where
  "unpackTgz env applyCfg tgzPath imageName tr =
     (case applyCfg of
        None \<Rightarrow> (Inl (ErrNew ''missing apply configuration''), tr)
      | Some cfg \<Rightarrow>
         if tgzPath = '''' \<or> imageName = '''' then (Inl (ErrNew ''missing unpack source''), tr)
         else
          (let topDir = filepath_Join env (RunUnpackDir env cfg) imageName in
           case statMkdirAll env topDir tr of
             (Some err, tr1) \<Rightarrow> (Inl err, tr1)
           | (None, tr1) \<Rightarrow>
              (case sys env (os_Open tgzPath) tr1 of
                 (Some err, tr2) \<Rightarrow> (Inl (ErrWrapf err ''opening %q'' tgzPath), tr2)
               | (None, tr2) \<Rightarrow>
                  (case sys env (gzip_NewReader tgzPath) tr2 of
                     (Some err, tr3) \<Rightarrow> (Inl err, tr3 @ [File_Close tgzPath])
                   | (None, tr3) \<Rightarrow>
                      (case sys env (pkgtar_ChrootUntar tgzPath topDir True) tr3 of
                         (Some err, tr4) \<Rightarrow>
                           (Inl (ErrWrapf err ''unpacking %q'' tgzPath),
                            tr4 @ [gzip_Close tgzPath, File_Close tgzPath])
                       | (None, tr4) \<Rightarrow>
                           (Inr topDir, tr4 @ [gzip_Close tgzPath, File_Close tgzPath]))))))"

definition mountSquashfs ::
  "'sc Env \<Rightarrow> ApplyConfig option \<Rightarrow> string \<Rightarrow> string \<Rightarrow> call list \<Rightarrow>
     (error + string) \<times> call list" where
  "mountSquashfs env applyCfg archivePath imageName tr =
     (case applyCfg of
        None \<Rightarrow> (Inl (ErrNew ''missing apply configuration''), tr)
      | Some cfg \<Rightarrow>
         if archivePath = '''' \<or> imageName = '''' then (Inl (ErrNew ''missing unpack source''), tr)
         else
          (let topDir = filepath_Join env (RunUnpackDir env cfg) imageName in
           case statMkdirAll env topDir tr of
             (Some err, tr1) \<Rightarrow> (Inl err, tr1)
           | (None, tr1) \<Rightarrow>
              (case AttachLoopDevice env archivePath tr1 of
                 (Inl err, tr2) \<Rightarrow> (Inl err, tr2)
               | (Inr loopDev, tr2) \<Rightarrow>
                  (case sys env (unix_Mount loopDev topDir ''squashfs'' MS_RDONLY '''') tr2 of
                     (Some err, tr3) \<Rightarrow> (Inl err, tr3 @ [loop_Close loopDev])
                   | (None, tr3) \<Rightarrow> (Inr topDir, tr3 @ [loop_Close loopDev])))))"

text \<open>The log fields that the loop of \<^verbatim>\<open>applyImages\<close> keeps using for an image.\<close>

definition logFields :: "Image \<Rightarrow> Fields" where
  "logFields im = [(''image'', LStr (Name im)), (''reference'', LStr (Reference im))]"

text \<open>
  One propagation step of the loop body,
  \<^verbatim>\<open>if len(xs) > 0 { if err := propagate(applyCfg, imageRoot, xs); err != nil {
    failedImages = append(failedImages, im); log.Error(msg, err); continue }
    log.Debug(done) }\<close>,
  is \<open>(xs, c, shown, msg, done)\<close>: \<open>c\<close> is the call and \<open>shown\<close> the list
  in the log field \<^verbatim>\<open>assets\<close>. The steps of an image run in order; the result is
  False when a step failed, which is where the source appends the image to
  \<^verbatim>\<open>failedImages\<close> and continues with the next image.
\<close>

type_synonym step = "string list \<times> call \<times> string list \<times> string \<times> string"

fun propagate :: "'sc Env \<Rightarrow> Fields \<Rightarrow> step list \<Rightarrow> call list \<Rightarrow> bool \<times> call list" where
  "propagate env lf [] tr = (True, tr)"
| "propagate env lf ((xs, c, shown, msg, done) # steps) tr =
     (if length xs > 0 then
        (case sys env c tr of
           (Some err, tr1) \<Rightarrow>
             (False, tr1 @ [log_Error (lf @ [(''assets'', LList shown)]) msg err])
         | (None, tr1) \<Rightarrow>
             propagate env lf steps (tr1 @ [log_Debug (lf @ [(''assets'', LList shown)]) done]))
      else propagate env lf steps tr)"

text \<open>
  The six steps in the order of the source. The tmpfiles step logs
  \<^verbatim>\<open>assets.Units\<close>, as the source does.
\<close>

definition propagateSteps :: "string \<Rightarrow> Assets \<Rightarrow> step list" where
  "propagateSteps imageRoot assets =
     [(Binaries assets, call_propagateBins imageRoot (Binaries assets), Binaries assets,
         ''failed to propagate binaries: '', ''binaries propagated''),
      (Network assets, call_propagateNetworkdUnits imageRoot (Network assets), Network assets,
         ''failed to propagate networkd units: '', ''networkd units propagated''),
      (Units assets, call_propagateSystemdUnits imageRoot (Units assets), Units assets,
         ''failed to propagate systemd units: '', ''systemd units propagated''),
      (Sysusers assets, call_propagateSysusersUnits imageRoot (Sysusers assets), Sysusers assets,
         ''failed to propagate sysusers: '', ''sysusers propagated''),
      (Tmpfiles assets, call_propagateTmpfilesUnits imageRoot (Tmpfiles assets), Units assets,
         ''failed to propagate tmpfiles: '', ''tmpfiles propagated''),
      (UdevRules assets, call_propagateUdevRules imageRoot (UdevRules assets), UdevRules assets,
         ''failed to propagate udev rules: '', ''udev rules propagated'')]"

text \<open>The \<^verbatim>\<open>switch archive.Format\<close> of the loop body.\<close>

definition unpackArchive ::
  "'sc Env \<Rightarrow> ApplyConfig option \<Rightarrow> Archive \<Rightarrow> Image \<Rightarrow> call list \<Rightarrow>
     (error + string) \<times> call list" where
  "unpackArchive env applyCfg archive im tr =
     (case Format archive of
        ArchiveFormatTgz \<Rightarrow> unpackTgz env applyCfg (Filepath archive) (Name im) tr
      | ArchiveFormatSquashfs \<Rightarrow> mountSquashfs env applyCfg (Filepath archive) (Name im) tr
      | ArchiveFormatOther x \<Rightarrow> (Inl (ErrUnrecognizedFormat archive), tr))"

text \<open>
  The body of the loop of \<^verbatim>\<open>applyImages\<close> for one image. The result is False where
  the source appends the image to \<^verbatim>\<open>failedImages\<close> and continues.
\<close>

definition applyImage ::
  "'sc Env \<Rightarrow> ApplyConfig \<Rightarrow> 'sc \<Rightarrow> Image \<Rightarrow> call list \<Rightarrow> bool \<times> call list" where
  "applyImage env cfg storeCache im tr =
     (case ArchiveFor env storeCache im tr of
        (Inl err, tr1) \<Rightarrow> (False, tr1 @ [log_Error (logFields im) '''' err])
      | (Inr archive, tr1) \<Rightarrow>
         (case unpackArchive env (Some cfg) archive im tr1 of
            (Inl err, tr2) \<Rightarrow> (False, tr2 @ [log_Error (logFields im) ''failed to unpack: '' err])
          | (Inr imageRoot, tr2) \<Rightarrow>
             (let lf = logFields im @ [(''path'', LStr imageRoot)] in
              case retrieveAssets env cfg imageRoot (tr2 @ [log_Debug lf ''image unpacked'']) of
                (Inl err, tr3) \<Rightarrow>
                  (False, tr3 @ [log_Error lf ''failed retrieving assets from image: '' err])
              | (Inr assets, tr3) \<Rightarrow> propagate env lf (propagateSteps imageRoot assets) tr3)))"

text \<open>The loop of \<^verbatim>\<open>applyImages\<close>, with the list \<^verbatim>\<open>failedImages\<close>.\<close>

fun imageLoop ::
  "'sc Env \<Rightarrow> ApplyConfig \<Rightarrow> 'sc \<Rightarrow> Image list \<Rightarrow> Image list \<Rightarrow> call list \<Rightarrow>
     Image list \<times> call list" where
  "imageLoop env cfg storeCache [] failedImages tr = (failedImages, tr)"
| "imageLoop env cfg storeCache (im # images) failedImages tr =
     (case applyImage env cfg storeCache im tr of
        (True, tr1) \<Rightarrow> imageLoop env cfg storeCache images failedImages tr1
      | (False, tr1) \<Rightarrow> imageLoop env cfg storeCache images (failedImages @ [im]) tr1)"

definition applyImages ::
  "'sc Env \<Rightarrow> ApplyConfig option \<Rightarrow> Image list \<Rightarrow> call list \<Rightarrow> error option \<times> call list" where
  "applyImages env applyCfg images tr =
     (case applyCfg of
        None \<Rightarrow> (Some (ErrNew ''missing apply configuration''), tr)
      | Some cfg \<Rightarrow>
         (case NewStoreCache env (StorePaths cfg) tr of
            (Inl err, tr1) \<Rightarrow> (Some err, tr1)
          | (Inr storeCache, tr1) \<Rightarrow>
             (case imageLoop env cfg storeCache images [] tr1 of
                (failedImages, tr2) \<Rightarrow>
                  if length failedImages > 0
                  then (Some (ErrFailedInstall (length failedImages)), tr2)
                  else (None, tr2))))"

text \<open>
  \<^verbatim>\<open>ApplyProfile\<close>. The encoder writes to a \<^verbatim>\<open>bufio.Writer\<close> on the file that
  \<^verbatim>\<open>os.Create\<close> opened; the deferred \<^verbatim>\<open>bufwr.Flush()\<close> and \<^verbatim>\<open>rpp.Close()\<close> run, in
  this order, on every return after the file was created, and what they return is
  dropped.
\<close>

definition ApplyProfile ::
  "'sc Env \<Rightarrow> ApplyConfig option \<Rightarrow> call list \<Rightarrow> error option \<times> call list" where
  "ApplyProfile env applyCfg tr =
     (case applyCfg of
        None \<Rightarrow> (Some (ErrNew ''missing apply configuration''), tr)
      | Some cfg \<Rightarrow>
         (case setupPaths env applyCfg tr of
            (Some err, tr1) \<Rightarrow> (Some (ErrWrap err ''profile setup''), tr1)
          | (None, tr1) \<Rightarrow>
             (case mergeProfiles env cfg tr1 of
                (Inl err, tr2) \<Rightarrow> (Some err, tr2)
              | (Inr images, tr2) \<Rightarrow>
                 (case (if length images > 0 then applyImages env applyCfg images tr2
                        else (None, tr2)) of
                    (Some err, tr3) \<Rightarrow> (Some err, tr3)
                  | (None, tr3) \<Rightarrow>
                     (let runProfile = \<lparr>Kind = ProfileManifestV0K,
                                         Value = ImagesToJSONV0 env images\<rparr>;
                          rpp = RunProfile env cfg
                      in case sys env (os_Create rpp) tr3 of
                           (Some err, tr4) \<Rightarrow> (Some err, tr4)
                         | (None, tr4) \<Rightarrow>
                            (case sys env (Encoder_Encode rpp '''' ''  '' runProfile) tr4 of
                               (Some err, tr5) \<Rightarrow>
                                 (Some (ErrWrapf err ''writing %q'' rpp),
                                  tr5 @ [Writer_Flush rpp, File_Close rpp])
                             | (None, tr5) \<Rightarrow>
                                (case sys env (os_Chmod rpp mode_0444) tr5 of
                                   (Some err, tr6) \<Rightarrow>
                                     (Some err, tr6 @ [Writer_Flush rpp, File_Close rpp])
                                 | (None, tr6) \<Rightarrow>
                                     (None,
                                      tr6 @ [log_Debug [(''upper profile'', LStr (UpperProfile cfg)),
                                                        (''sealed profile'', LStr rpp)]
                                               ''profile applied'',
                                             Writer_Flush rpp, File_Close rpp]))))))))"

section \<open>Sealing\<close>

text \<open>\<^verbatim>\<open>strings.Join\<close>.\<close>

fun Join :: "string list \<Rightarrow> string \<Rightarrow> string" where
  "Join [] sep = ''''"
| "Join [x] sep = x"
| "Join (x # y # ys) sep = x @ sep @ Join (y # ys) sep"

text \<open>
  The verb \<^verbatim>\<open>%q\<close> of package fmt on a string is \<^verbatim>\<open>strconv.Quote\<close>. On ASCII bytes
  it is as follows: the double quote and the backslash get a backslash, printable
  bytes stand for themselves, seven control bytes have a letter escape, and the
  other control bytes are written \<^verbatim>\<open>\x\<close> and two hexadecimal digits. A string with
  a byte outside ASCII is left to the parameter \<open>QuoteNonASCII\<close>.
\<close>

definition hexDigit :: "nat \<Rightarrow> char" where
  "hexDigit n = ''0123456789abcdef'' ! (n mod 16)"

definition quoteByte :: "char \<Rightarrow> string" where
  "quoteByte c =
     (let n = (of_char c :: nat) in
      if c = CHR 0x22 \<or> c = CHR 0x5C then [CHR 0x5C, c]
      else if 0x20 \<le> n \<and> n < 0x7F then [c]
      else if c = CHR 0x07 then [CHR 0x5C, CHR ''a'']
      else if c = CHR 0x08 then [CHR 0x5C, CHR ''b'']
      else if c = CHR 0x0C then [CHR 0x5C, CHR ''f'']
      else if c = CHR 0x0A then [CHR 0x5C, CHR ''n'']
      else if c = CHR 0x0D then [CHR 0x5C, CHR ''r'']
      else if c = CHR 0x09 then [CHR 0x5C, CHR ''t'']
      else if c = CHR 0x0B then [CHR 0x5C, CHR ''v'']
      else [CHR 0x5C, CHR ''x'', hexDigit (n div 16), hexDigit n])"

definition Quote :: "'sc Env \<Rightarrow> string \<Rightarrow> string" where
  "Quote env s =
     (if list_all (\<lambda>c. (of_char c :: nat) < 0x80) s
      then [CHR 0x22] @ concat (map quoteByte s) @ [CHR 0x22]
      else QuoteNonASCII env s)"

text \<open>\<^verbatim>\<open>fmt.Sprintf("%s=%q", key, val)\<close>.\<close>

definition sealLine :: "'sc Env \<Rightarrow> string \<Rightarrow> string \<Rightarrow> string" where
  "sealLine env key val = key @ ''='' @ Quote env val"

text \<open>The loop that writes the lines of the seal file, each followed by a newline.\<close>

fun writeLines ::
  "'sc Env \<Rightarrow> string \<Rightarrow> string list \<Rightarrow> call list \<Rightarrow> error option \<times> call list" where
  "writeLines env path [] tr = (None, tr)"
| "writeLines env path (line # rest) tr =
     (case sys env (File_WriteString path (line @ [CHR 0x0A])) tr of
        (Some err, tr1) \<Rightarrow> (Some (ErrWrap err ''writing seal content''), tr1)
      | (None, tr1) \<Rightarrow> writeLines env path rest tr1)"

definition sealContent :: "'sc Env \<Rightarrow> ApplyConfig \<Rightarrow> string list" where
  "sealContent env cfg =
     [sealLine env (SealLowerProfiles env) (Join (LowerProfiles cfg) '':''),
      sealLine env (SealUpperProfile env) (UpperProfile cfg),
      sealLine env (SealRunProfilePath env) (RunProfile env cfg),
      sealLine env (SealBindir env) (RunBinDir env cfg),
      sealLine env (SealUnpackdir env) (RunUnpackDir env cfg)]"

text \<open>
  \<^verbatim>\<open>SealSystemState\<close>. The deferred \<^verbatim>\<open>fp.Close()\<close> runs on every return after the
  seal file was created.
\<close>

definition SealSystemState ::
  "'sc Env \<Rightarrow> ApplyConfig option \<Rightarrow> call list \<Rightarrow> error option \<times> call list" where
  "SealSystemState env applyCfg tr =
     (case applyCfg of
        None \<Rightarrow> (Some (ErrNew ''missing apply configuration''), tr)
      | Some cfg \<Rightarrow>
         (case statMkdirAll env (filepath_Dir env (SealPath env)) tr of
            (Some err, tr1) \<Rightarrow> (Some err, tr1)
          | (None, tr1) \<Rightarrow>
             (case sys env (os_Create (SealPath env)) tr1 of
                (Some err, tr2) \<Rightarrow> (Some err, tr2)
              | (None, tr2) \<Rightarrow>
                 (case writeLines env (SealPath env) (sealContent env cfg) tr2 of
                    (Some err, tr3) \<Rightarrow> (Some err, tr3 @ [File_Close (SealPath env)])
                  | (None, tr3) \<Rightarrow>
                     (case sys env (unix_Mount (RunUnpackDir env cfg) (RunUnpackDir env cfg) ''''
                                      (MS_REMOUNT OR MS_RDONLY) '''') tr3 of
                        (Some err, tr4) \<Rightarrow>
                          (Some (ErrWrap err ''failed to remount read-only''),
                           tr4 @ [File_Close (SealPath env)])
                      | (None, tr4) \<Rightarrow>
                          (None,
                           tr4 @ [log_Debug [(''path'', LStr (SealPath env)),
                                             (''content'', LList (sealContent env cfg))]
                                    ''system state sealed'',
                                  File_Close (SealPath env)]))))))"

section \<open>The remote URL template\<close>

text \<open>
  Modelled from the spec: \<^verbatim>\<open>evaluateURL\<close>, the type \<^verbatim>\<open>Remote\<close> and the errors
  \<^verbatim>\<open>errNilRemote\<close>, \<^verbatim>\<open>errEmptyUsrMountpoint\<close>, \<^verbatim>\<open>errEmptyTemplateURL\<close> are declared in a
  file that is not among the sources; \<^verbatim>\<open>remote_test.go\<close>, which is, calls them. The
  receiver is a pointer that may be nil. The preconditions are checked in the
  spec's order; then the release-info facts are read from
  \<^verbatim>\<open>lib/os-release\<close> under the mountpoint, each \<^verbatim>\<open>${NAME}\<close> of the template whose
  name is known is replaced by its value (an unknown name is left as it is), and the
  result has to parse as a URL.
\<close>

record Remote =
  TemplateURL :: string

datatype remoteError =
    errNilRemote
  | errEmptyUsrMountpoint
  | errEmptyTemplateURL
  | errOsRelease error
  | errInvalidURL string

text \<open>
  Reading the release-info file at a path and the URL parser are parameters: the
  first yields the key and value of each line, the second tells whether a string
  parses as a URL.
\<close>

record RemoteEnv =
  readOsRelease :: "string \<Rightarrow> error + (string \<times> string) list"
  validURL :: "string \<Rightarrow> bool"

text \<open>
  The table of variables: the two spellings of the mountpoint variable stand for the
  mountpoint, the two spellings of the board variable for the same fact, every other
  name for the release-info fact of that name.
\<close>

definition lookupVar :: "(string \<times> string) list \<Rightarrow> string \<Rightarrow> string \<Rightarrow> string option" where
  "lookupVar facts usrMountpoint name =
     (if name = ''COREOS_USR'' \<or> name = ''FLATCAR_USR'' then Some usrMountpoint
      else if name = ''COREOS_BOARD'' \<or> name = ''FLATCAR_BOARD'' then
        (case map_of facts ''FLATCAR_BOARD'' of
           Some v \<Rightarrow> Some v
         | None \<Rightarrow> map_of facts ''COREOS_BOARD'')
      else map_of facts name)"

function expand :: "(string \<Rightarrow> string option) \<Rightarrow> string \<Rightarrow> string" where
  "expand tbl [] = []"
| "expand tbl [c] = [c]"
| "expand tbl (c # d # cs) =
     (if c = CHR ''$'' \<and> d = CHR ''{'' \<and> CHR ''}'' \<in> set cs then
        (case tbl (takeWhile (\<lambda>x. x \<noteq> CHR ''}'') cs) of
           Some v \<Rightarrow> v
         | None \<Rightarrow> [c, d] @ takeWhile (\<lambda>x. x \<noteq> CHR ''}'') cs @ ''}'')
        @ expand tbl (tl (dropWhile (\<lambda>x. x \<noteq> CHR ''}'') cs))
      else c # expand tbl (d # cs))"
  by pat_completeness auto
termination
proof (relation "measure (\<lambda>(tbl, s). length s)")
  show "wf (measure (\<lambda>(tbl, s). length s))" by simp
next
  fix tbl :: "string \<Rightarrow> string option" and c d :: char and cs :: string
  have "length (dropWhile (\<lambda>x. x \<noteq> CHR ''}'') cs) \<le> length cs"
    by (rule length_dropWhile_le)
  then show "((tbl, tl (dropWhile (\<lambda>x. x \<noteq> CHR ''}'') cs)), (tbl, c # d # cs))
      \<in> measure (\<lambda>(tbl, s). length s)"
    by simp
next
  fix tbl :: "string \<Rightarrow> string option" and c d :: char and cs :: string
  show "((tbl, d # cs), (tbl, c # d # cs)) \<in> measure (\<lambda>(tbl, s). length s)"
    by simp
qed

definition evaluateURL :: "RemoteEnv \<Rightarrow> Remote option \<Rightarrow> string \<Rightarrow> remoteError + string" where
  "evaluateURL renv r usrMountpoint =
     (case r of
        None \<Rightarrow> Inl errNilRemote
      | Some remote \<Rightarrow>
         if usrMountpoint = '''' then Inl errEmptyUsrMountpoint
         else if TemplateURL remote = '''' then Inl errEmptyTemplateURL
         else
          (case readOsRelease renv (usrMountpoint @ ''/lib/os-release'') of
             Inl err \<Rightarrow> Inl (errOsRelease err)
           | Inr facts \<Rightarrow>
              (let url = expand (lookupVar facts usrMountpoint) (TemplateURL remote) in
               if validURL renv url then Inr url else Inl (errInvalidURL url))))"

section \<open>A concrete world\<close>

text \<open>
  A world to run the pipeline in: no directory exists yet, every call succeeds but
  the extraction of the archive \<^verbatim>\<open>/store/broken.tgz\<close>; the store has no archive for
  the image \<^verbatim>\<open>missing\<close>, an archive of an unknown format for the image \<^verbatim>\<open>odd\<close>, a
  squashfs archive for the image \<^verbatim>\<open>sq\<close> and a tgz archive for every other image. The
  merged profile is the list \<open>ims\<close>.
\<close>

definition demoCfg :: ApplyConfig where
  "demoCfg = \<lparr>BaseDir = ''/var/lib/torcx'', RunDir = ''/run/torcx'', ConfDir = ''/etc/torcx'',
               StorePaths = [''/store''], LowerProfiles = [''vendor'', ''oem''],
               UpperProfile = ''user''\<rparr>"

definition demoFails :: "call list \<Rightarrow> call \<Rightarrow> error option" where
  "demoFails tr c =
     (case c of
        os_Stat p \<Rightarrow> Some (ErrNotExist p)
      | pkgtar_ChrootUntar src dst x \<Rightarrow>
          if src = ''/store/broken.tgz'' then Some (ErrSys ''unexpected EOF'') else None
      | _ \<Rightarrow> None)"

definition demoArchiveFor :: "call list \<Rightarrow> unit \<Rightarrow> Image \<Rightarrow> error + Archive" where
  "demoArchiveFor tr sc im =
     (if Name im = ''missing'' then Inl (ErrSys ''archive not found'')
      else if Name im = ''odd''
        then Inr \<lparr>Filepath = ''/store/odd.zip'', Format = ArchiveFormatOther ''zip''\<rparr>
      else if Name im = ''sq''
        then Inr \<lparr>Filepath = ''/store/sq.squashfs'', Format = ArchiveFormatSquashfs\<rparr>
      else Inr \<lparr>Filepath = ''/store/'' @ Name im @ ''.tgz'', Format = ArchiveFormatTgz\<rparr>)"

definition demoAssets :: "string \<Rightarrow> Assets" where
  "demoAssets imageRoot =
     \<lparr>Binaries = [imageRoot @ ''/bin/tool''], Network = [], Units = [imageRoot @ ''/tool.service''],
      Sysusers = [], Tmpfiles = [], UdevRules = []\<rparr>"

definition demoEnv :: "Image list \<Rightarrow> unit Env" where
  "demoEnv ims =
     \<lparr>fails = demoFails,
      mergeProfilesRes = (\<lambda>tr cfg. Inr ims),
      NewStoreCacheRes = (\<lambda>tr paths. Inr ()),
      ArchiveForRes = demoArchiveFor,
      retrieveAssetsRes = (\<lambda>tr cfg imageRoot. Inr (demoAssets imageRoot)),
      AttachLoopDeviceRes = (\<lambda>tr path. Inr ''/dev/loop0''),
      RunProfile = (\<lambda>cfg. RunDir cfg @ ''/profile.json''),
      RunBinDir = (\<lambda>cfg. RunDir cfg @ ''/bin''),
      RunUnpackDir = (\<lambda>cfg. RunDir cfg @ ''/unpack''),
      UserProfileDir = (\<lambda>cfg. ConfDir cfg @ ''/profiles''),
      filepath_Join = (\<lambda>a b. a @ ''/'' @ b),
      filepath_Dir = (\<lambda>p. ''/run/metadata''),
      SealPath = ''/run/metadata/torcx'',
      SealLowerProfiles = ''TORCX_LOWER_PROFILES'',
      SealUpperProfile = ''TORCX_UPPER_PROFILE'',
      SealRunProfilePath = ''TORCX_PROFILE_PATH'',
      SealBindir = ''TORCX_BINDIR'',
      SealUnpackdir = ''TORCX_UNPACKDIR'',
      ToJSONV0 = (\<lambda>im. [(''name'', Name im), (''reference'', Reference im)]),
      QuoteNonASCII = (\<lambda>s. s)\<rparr>"

definition demoImage :: "string \<Rightarrow> Image" where
  "demoImage n = \<lparr>Name = n, Reference = ''1.0'', Remote = ''''\<rparr>"

definition demoRemoteEnv :: RemoteEnv where
  "demoRemoteEnv =
     \<lparr>readOsRelease = (\<lambda>p. Inr [(''ID'', ''coreos''), (''VERSION_ID'', ''1680.2.0''),
                                  (''COREOS_BOARD'', ''amd64-usr'')]),
      validURL = (\<lambda>s. True)\<rparr>"

section \<open>Observations on streams and traces\<close>

text \<open>A text made of the lines \<open>ls\<close>, each ended by a newline.\<close>

definition textOf :: "string list \<Rightarrow> string" where
  "textOf ls = concat (map (\<lambda>l. l @ [CHR 0x0A]) ls)"

text \<open>
  A line that the scanner delivers as it is written: without a newline inside and
  without a trailing carriage return.
\<close>

definition plainLine :: "string \<Rightarrow> bool" where
  "plainLine l = (CHR 0x0A \<notin> set l \<and> dropCR l = l)"

text \<open>
  What the loop of \<^verbatim>\<open>parseOsVersionID\<close> makes of the lines handed out, each with the
  error reported at that moment, \<open>e\<close> being the error reported at the end of the
  scan: the value of the first \<^verbatim>\<open>VERSION_ID=\<close> line with the error reported at that
  line, or the empty value with the error at the end.
\<close>

fun pickLine :: "(string \<times> error option) list \<Rightarrow> error option \<Rightarrow> string \<times> error option" where
  "pickLine [] e = ('''', e)"
| "pickLine ((l, el) # rest) e =
     (if isVersionLine l then (drop 11 l, el) else pickLine rest e)"

text \<open>A printable ASCII byte other than the double quote and the backslash.\<close>

definition plainByte :: "char \<Rightarrow> bool" where
  "plainByte c = (0x20 \<le> (of_char c :: nat) \<and> (of_char c :: nat) < 0x7F
                    \<and> c \<noteq> CHR 0x22 \<and> c \<noteq> CHR 0x5C)"

text \<open>The images for which a trace asks the store cache, in order.\<close>

fun imageOf :: "call \<Rightarrow> Image list" where
  "imageOf (call_ArchiveFor im) = [im]"
| "imageOf c = []"

definition attempted :: "call list \<Rightarrow> Image list" where
  "attempted tr = concat (map imageOf tr)"

text \<open>The calls that create a file or encode a run profile into one.\<close>

fun isProfileWrite :: "call \<Rightarrow> bool" where
  "isProfileWrite (os_Create p) = True"
| "isProfileWrite (Encoder_Encode p pre ind v) = True"
| "isProfileWrite c = False"

text \<open>The calls of the per-image phase: the store cache and everything done for an image.\<close>

fun isImagePhase :: "call \<Rightarrow> bool" where
  "isImagePhase (call_NewStoreCache ps) = True"
| "isImagePhase (call_ArchiveFor im) = True"
| "isImagePhase (os_Open p) = True"
| "isImagePhase (gzip_NewReader p) = True"
| "isImagePhase (gzip_Close p) = True"
| "isImagePhase (pkgtar_ChrootUntar p d x) = True"
| "isImagePhase (loopback_AttachLoopDevice p) = True"
| "isImagePhase (loop_Close p) = True"
| "isImagePhase (call_retrieveAssets p) = True"
| "isImagePhase (call_propagateBins p xs) = True"
| "isImagePhase (call_propagateNetworkdUnits p xs) = True"
| "isImagePhase (call_propagateSystemdUnits p xs) = True"
| "isImagePhase (call_propagateSysusersUnits p xs) = True"
| "isImagePhase (call_propagateTmpfilesUnits p xs) = True"
| "isImagePhase (call_propagateUdevRules p xs) = True"
| "isImagePhase (log_Error lf msg err) = True"
| "isImagePhase c = False"

text \<open>The calls that \<^verbatim>\<open>setupPaths\<close> and \<^verbatim>\<open>mergeProfiles\<close> may make.\<close>

fun setupCall :: "call \<Rightarrow> bool" where
  "setupCall (os_Stat p) = True"
| "setupCall (os_MkdirAll p m) = True"
| "setupCall (unix_Mount s t f fl d) = True"
| "setupCall (os_Chmod p m) = True"
| "setupCall (log_Debug lf msg) = True"
| "setupCall call_mergeProfiles = True"
| "setupCall c = False"

text \<open>The calls that the body of the image loop may make after it asked the store cache.\<close>

fun imageCall :: "call \<Rightarrow> bool" where
  "imageCall (os_Stat p) = True"
| "imageCall (os_MkdirAll p m) = True"
| "imageCall (os_Open p) = True"
| "imageCall (gzip_NewReader p) = True"
| "imageCall (gzip_Close p) = True"
| "imageCall (File_Close p) = True"
| "imageCall (pkgtar_ChrootUntar p d x) = True"
| "imageCall (loopback_AttachLoopDevice p) = True"
| "imageCall (unix_Mount s t f fl d) = True"
| "imageCall (loop_Close p) = True"
| "imageCall (call_retrieveAssets p) = True"
| "imageCall (call_propagateBins p xs) = True"
| "imageCall (call_propagateNetworkdUnits p xs) = True"
| "imageCall (call_propagateSystemdUnits p xs) = True"
| "imageCall (call_propagateSysusersUnits p xs) = True"
| "imageCall (call_propagateTmpfilesUnits p xs) = True"
| "imageCall (call_propagateUdevRules p xs) = True"
| "imageCall (log_Error lf msg err) = True"
| "imageCall (log_Debug lf msg) = True"
| "imageCall c = False"

text \<open>\<open>tr'\<close> is \<open>tr\<close> followed by calls that all satisfy \<open>P\<close>.\<close>

definition extends :: "(call \<Rightarrow> bool) \<Rightarrow> call list \<Rightarrow> call list \<Rightarrow> bool" where
  "extends P tr tr' = (take (length tr) tr' = tr \<and> list_all P (drop (length tr) tr'))"

text \<open>
  The result of the loop body for each image in turn, in the trace that the loop
  has reached there, and the trace in which the loop takes up the image at
  position \<open>i\<close>.
\<close>

fun outcomes :: "'sc Env \<Rightarrow> ApplyConfig \<Rightarrow> 'sc \<Rightarrow> Image list \<Rightarrow> call list \<Rightarrow> bool list" where
  "outcomes env cfg storeCache [] tr = []"
| "outcomes env cfg storeCache (im # images) tr =
     fst (applyImage env cfg storeCache im tr)
       # outcomes env cfg storeCache images (snd (applyImage env cfg storeCache im tr))"

definition traceBefore ::
  "'sc Env \<Rightarrow> ApplyConfig \<Rightarrow> 'sc \<Rightarrow> Image list \<Rightarrow> call list \<Rightarrow> nat \<Rightarrow> call list" where
  "traceBefore env cfg storeCache images tr i =
     snd (imageLoop env cfg storeCache (take i images) [] tr)"

text \<open>
  The directory of an image under the unpack directory: \<open>topDir\<close> of \<^verbatim>\<open>unpackTgz\<close> and
  \<^verbatim>\<open>mountSquashfs\<close>, which they return and the loop of \<^verbatim>\<open>applyImages\<close> calls
  \<^verbatim>\<open>imageRoot\<close>.
\<close>

definition imageTopDir :: "'sc Env \<Rightarrow> ApplyConfig \<Rightarrow> Image \<Rightarrow> string" where
  "imageTopDir env cfg im = filepath_Join env (RunUnpackDir env cfg) (Name im)"

text \<open>
  The calls that change the system for an image: the extraction of its archive or
  the mount of its file system, and the propagation of its assets.
\<close>

fun isEffect :: "call \<Rightarrow> bool" where
  "isEffect (pkgtar_ChrootUntar p d x) = True"
| "isEffect (unix_Mount s t f fl d) = True"
| "isEffect (call_propagateBins p xs) = True"
| "isEffect (call_propagateNetworkdUnits p xs) = True"
| "isEffect (call_propagateSystemdUnits p xs) = True"
| "isEffect (call_propagateSysusersUnits p xs) = True"
| "isEffect (call_propagateTmpfilesUnits p xs) = True"
| "isEffect (call_propagateUdevRules p xs) = True"
| "isEffect c = False"

text \<open>
  What applying an image asks of the system: the call that extracts the archive
  \<open>archive\<close> of the image (for a squashfs archive, the mount of the loop device
  \<open>dev\<close>), the calls that lead to it, and one propagation call for each kind of
  asset that the image has, in the order binaries, networkd units, systemd units,
  sysusers, tmpfiles, udev rules.
\<close>

definition extractCall :: "'sc Env \<Rightarrow> ApplyConfig \<Rightarrow> Image \<Rightarrow> Archive \<Rightarrow> string \<Rightarrow> call" where
  "extractCall env cfg im archive dev =
     (if Format archive = ArchiveFormatTgz
      then pkgtar_ChrootUntar (Filepath archive) (imageTopDir env cfg im) True
      else unix_Mount dev (imageTopDir env cfg im) ''squashfs'' MS_RDONLY '''')"

definition extractCalls ::
  "'sc Env \<Rightarrow> ApplyConfig \<Rightarrow> Image \<Rightarrow> Archive \<Rightarrow> string \<Rightarrow> call list" where
  "extractCalls env cfg im archive dev =
     os_MkdirAll (imageTopDir env cfg im) mode_0755
     # (if Format archive = ArchiveFormatTgz
        then [os_Open (Filepath archive), gzip_NewReader (Filepath archive)] else [])
     @ [extractCall env cfg im archive dev]"

definition expectedPropagation :: "string \<Rightarrow> Assets \<Rightarrow> call list" where
  "expectedPropagation root assets =
     (if Binaries assets \<noteq> [] then [call_propagateBins root (Binaries assets)] else [])
     @ (if Network assets \<noteq> [] then [call_propagateNetworkdUnits root (Network assets)] else [])
     @ (if Units assets \<noteq> [] then [call_propagateSystemdUnits root (Units assets)] else [])
     @ (if Sysusers assets \<noteq> [] then [call_propagateSysusersUnits root (Sysusers assets)] else [])
     @ (if Tmpfiles assets \<noteq> [] then [call_propagateTmpfilesUnits root (Tmpfiles assets)] else [])
     @ (if UdevRules assets \<noteq> [] then [call_propagateUdevRules root (UdevRules assets)] else [])"

text \<open>
  The world works for an image in the trace \<open>tr\<close>: the image has a name; asked in
  this trace, the store cache resolves the image to the archive \<open>archive\<close>, which
  has a path and is a tgz or a squashfs archive, a squashfs archive is attached to the
  loop device \<open>dev\<close>, and the assets \<open>assets\<close> are found under the directory of
  the image; and none of the calls that applying the image asks of the system fails
  in this trace. Whether the directory of the image exists already is left open.
\<close>

definition worksFor ::
  "'sc Env \<Rightarrow> ApplyConfig \<Rightarrow> 'sc \<Rightarrow> Image \<Rightarrow> Archive \<Rightarrow> string \<Rightarrow> Assets \<Rightarrow>
     call list \<Rightarrow> bool" where
  "worksFor env cfg storeCache im archive dev assets tr =
     (Name im \<noteq> '''' \<and> Filepath archive \<noteq> ''''
      \<and> (Format archive = ArchiveFormatTgz \<or> Format archive = ArchiveFormatSquashfs)
      \<and> ArchiveForRes env tr storeCache im = Inr archive
      \<and> (Format archive = ArchiveFormatSquashfs
           \<longrightarrow> AttachLoopDeviceRes env tr (Filepath archive) = Inr dev)
      \<and> retrieveAssetsRes env tr cfg (imageTopDir env cfg im) = Inr assets
      \<and> list_all (\<lambda>c. fails env tr c = None)
            (extractCalls env cfg im archive dev
             @ expectedPropagation (imageTopDir env cfg im) assets))"

text \<open>
  The calls that the loop of \<^verbatim>\<open>applyImages\<close> makes for the image at position \<open>i\<close>:
  what the loop body adds to the trace in which the loop takes up that image.
\<close>

definition callsFor ::
  "'sc Env \<Rightarrow> ApplyConfig \<Rightarrow> 'sc \<Rightarrow> Image list \<Rightarrow> call list \<Rightarrow> nat \<Rightarrow> call list" where
  "callsFor env cfg storeCache images tr i =
     drop (length (traceBefore env cfg storeCache images tr i))
       (snd (applyImage env cfg storeCache (images ! i)
               (traceBefore env cfg storeCache images tr i)))"

section \<open>Properties of the os-release parser\<close>

declare Scan.simps [simp del] scanRun.simps [simp del]

lemma SplitN2_length: "length (SplitN2 l c) = (if c \<in> set l then 2 else 1)"
  by (simp add: SplitN2_def)

lemma isVersionLine_split:
  "isVersionLine l \<longleftrightarrow>
     (CHR ''='' \<in> set l \<and> takeWhile (\<lambda>c. c \<noteq> CHR ''='') l = ''VERSION_ID'')"
proof
  assume "isVersionLine l"
  then have "l = ''VERSION_ID='' @ drop 11 l"
    unfolding isVersionLine_def by (metis append_take_drop_id)
  then obtain v where l: "l = ''VERSION_ID='' @ v" ..
  show "CHR ''='' \<in> set l \<and> takeWhile (\<lambda>c. c \<noteq> CHR ''='') l = ''VERSION_ID''"
    by (simp add: l)
next
  assume a: "CHR ''='' \<in> set l \<and> takeWhile (\<lambda>c. c \<noteq> CHR ''='') l = ''VERSION_ID''"
  let ?P = "\<lambda>c. c \<noteq> CHR ''=''"
  from a have ne: "dropWhile ?P l \<noteq> []" by simp
  then have "hd (dropWhile ?P l) = CHR ''=''"
    using hd_dropWhile [of ?P l] by simp
  with ne obtain r where r: "dropWhile ?P l = CHR ''='' # r"
    by (cases "dropWhile ?P l") auto
  have "l = takeWhile ?P l @ dropWhile ?P l" by simp
  with a r have "l = ''VERSION_ID'' @ CHR ''='' # r" by simp
  then show "isVersionLine l" by (simp add: isVersionLine_def)
qed

lemma scanLoop_step:
  "scanLoop (sc # rest) fin =
     (if isVersionLine (Text sc) then (drop 11 (Text sc), sc) else scanLoop rest fin)"
proof (cases "isVersionLine (Text sc)")
  case True
  then have "Text sc = ''VERSION_ID='' @ drop 11 (Text sc)"
    unfolding isVersionLine_def by (metis append_take_drop_id)
  then obtain v where l: "Text sc = ''VERSION_ID='' @ v" and v: "v = drop 11 (Text sc)"
    by auto
  show ?thesis using True by (simp add: l SplitN2_def Let_def)
next
  case False
  then show ?thesis
    by (auto simp: isVersionLine_split SplitN2_def Let_def)
qed

lemma scanLoop_pickLine:
  "(fst (scanLoop ts fin), Err (snd (scanLoop ts fin)))
     = pickLine (map (\<lambda>sc. (Text sc, Err sc)) ts) (Err fin)"
  by (induction ts) (simp_all add: scanLoop_step del: scanLoop.simps(2))

lemma pickLine_none:
  "list_all (\<lambda>p. \<not> isVersionLine (fst p)) ps \<Longrightarrow> pickLine ps e = ('''', e)"
  by (induction ps) auto

lemma pickLine_first:
  "list_all (\<lambda>p. \<not> isVersionLine (fst p)) pre \<Longrightarrow>
   pickLine (pre @ (''VERSION_ID='' @ v, el) # post) e = (v, el)"
  by (induction pre) (auto simp: isVersionLine_def)

lemma significant_version: "isVersionLine l \<Longrightarrow> significant l"
  by (auto simp: isVersionLine_split significant_def)

lemma pickLine_filter: "pickLine (filter (\<lambda>p. significant (fst p)) ps) e = pickLine ps e"
proof (induction ps)
  case Nil
  show ?case by simp
next
  case (Cons p ps)
  obtain l el where p: "p = (l, el)" by (cases p)
  show ?case
  proof (cases "significant l")
    case True
    then show ?thesis using Cons by (simp add: p)
  next
    case False
    then have "\<not> isVersionLine l" using significant_version by blast
    with False show ?thesis using Cons by (simp add: p)
  qed
qed

lemma parse_pickLine:
  "parseOsVersionID rd =
     (case snd (pickLine (scanned rd) (scanError rd)) of
        Some e \<Rightarrow> Inl (ErrWrap e ''failed to parse os-release file'')
      | None \<Rightarrow> if fst (pickLine (scanned rd) (scanError rd)) = ''''
                then Inl ErrUnknownOSVersionID
                else Inr (fst (pickLine (scanned rd) (scanError rd))))"
proof -
  let ?run = "scanRun (NewScanner rd)"
  have pk: "pickLine (scanned rd) (scanError rd)
      = (fst (scanLoop (fst ?run) (snd ?run)), Err (snd (scanLoop (fst ?run) (snd ?run))))"
    by (simp add: scanned_def scanError_def scanLoop_pickLine)
  show ?thesis
    unfolding parseOsVersionID_def Let_def pk fst_conv snd_conv ..
qed

lemma parse_no_version:
  assumes "list_all (\<lambda>p. \<not> isVersionLine (fst p)) (scanned rd)"
  shows "parseOsVersionID rd =
    (case scanError rd of
       None \<Rightarrow> Inl ErrUnknownOSVersionID
     | Some e \<Rightarrow> Inl (ErrWrap e ''failed to parse os-release file''))"
  using pickLine_none [OF assms, of "scanError rd"]
  by (simp add: parse_pickLine split: option.split)

lemma parse_first:
  assumes "scanned rd = pre @ (''VERSION_ID='' @ v, el) # post"
    and "list_all (\<lambda>p. \<not> isVersionLine (fst p)) pre"
  shows "parseOsVersionID rd =
    (case el of
       Some e \<Rightarrow> Inl (ErrWrap e ''failed to parse os-release file'')
     | None \<Rightarrow> if v = '''' then Inl ErrUnknownOSVersionID else Inr v)"
proof -
  have pk: "pickLine (scanned rd) (scanError rd) = (v, el)"
    using pickLine_first [OF assms(2), of v el post "scanError rd"] assms(1) by simp
  show ?thesis unfolding parse_pickLine pk fst_conv snd_conv ..
qed

lemma parse_ignore:
  assumes "filter (\<lambda>p. significant (fst p)) (scanned rd)
      = filter (\<lambda>p. significant (fst p)) (scanned rd')"
    and "scanError rd = scanError rd'"
  shows "parseOsVersionID rd = parseOsVersionID rd'"
proof -
  have "pickLine (scanned rd) (scanError rd) = pickLine (scanned rd') (scanError rd')"
    using assms pickLine_filter by metis
  then show ?thesis by (simp only: parse_pickLine)
qed

lemma takeWhile_line:
  "x \<notin> set l \<Longrightarrow> takeWhile (\<lambda>c. c \<noteq> x) (l @ x # rest) = l"
  by (induction l) auto

lemma Scan_line:
  assumes "sc_pending s = l @ CHR 0x0A # rest" and "CHR 0x0A \<notin> set l"
  shows "Scan s = (True, s\<lparr>sc_pending := rest, sc_start := sc_start s + (length l + 1),
                           sc_token := dropCR l\<rparr>)"
proof -
  have "ScanLines (sc_pending s) b = (length l + 1, Some (dropCR l))" for b
    using assms by (simp add: ScanLines_def takeWhile_line)
  then have "scanStep s = Inl (True, s\<lparr>sc_pending := rest,
      sc_start := sc_start s + (length l + 1), sc_token := dropCR l\<rparr>)"
    using assms(1) by (simp add: scanStep_def Let_def)
  then show ?thesis using Scan.simps [of s] by simp
qed

lemma Scan_stop:
  assumes "sc_pending s = []" and "sc_err s \<noteq> None"
  shows "Scan s = (False, s\<lparr>sc_pending := [], sc_start := 0, sc_token := []\<rparr>)"
proof -
  have "scanStep s = Inl (False, s\<lparr>sc_pending := [], sc_start := 0, sc_token := []\<rparr>)"
    using assms by (simp add: scanStep_def Let_def ScanLines_def)
  then show ?thesis using Scan.simps [of s] by simp
qed

lemma Scan_end:
  assumes "sc_pending s = []" and "sc_reads s = []"
  shows "fst (Scan s) = False \<and> Err (snd (Scan s)) = Err s"
proof (cases "sc_err s = None")
  case False
  then show ?thesis using Scan_stop [OF assms(1)] by (simp add: Err_def)
next
  case True
  have "\<exists>s'. scanStep s = Inr s' \<and> sc_pending s' = [] \<and> sc_err s' = Some ErrEOF"
    using assms True
    by (simp add: scanStep_def Let_def MaxScanTokenSize_def)
  then obtain s' where s': "scanStep s = Inr s'" "sc_pending s' = []"
      "sc_err s' = Some ErrEOF" by blast
  have "Scan s = Scan s'" using Scan.simps [of s] s'(1) by simp
  moreover have "Scan s' = (False, s'\<lparr>sc_pending := [], sc_start := 0, sc_token := []\<rparr>)"
    using Scan_stop [of s'] s' by simp
  ultimately show ?thesis using s'(3) True by (simp add: Err_def)
qed

lemma scanRun_lines:
  assumes "sc_reads s = []" and "sc_pending s = textOf ls"
    and "list_all (\<lambda>l. CHR 0x0A \<notin> set l) ls"
  shows "map (\<lambda>sc. (Text sc, Err sc)) (fst (scanRun s)) = map (\<lambda>l. (dropCR l, Err s)) ls
    \<and> Err (snd (scanRun s)) = Err s"
  using assms
proof (induction ls arbitrary: s)
  case Nil
  then have e: "fst (Scan s) = False \<and> Err (snd (Scan s)) = Err s"
    using Scan_end [of s] by (simp add: textOf_def)
  obtain b s1 where bs: "Scan s = (b, s1)" by (cases "Scan s")
  with e have "b = False" "Err s1 = Err s" by simp_all
  then show ?case using scanRun.simps [of s] bs by simp
next
  case (Cons l ls)
  let ?s1 = "s\<lparr>sc_pending := textOf ls, sc_start := sc_start s + (length l + 1),
                sc_token := dropCR l\<rparr>"
  from Cons.prems have p: "sc_pending s = l @ CHR 0x0A # textOf ls" and l: "CHR 0x0A \<notin> set l"
    by (simp_all add: textOf_def)
  have sc: "Scan s = (True, ?s1)" using Scan_line [OF p l] .
  have ih: "map (\<lambda>sc. (Text sc, Err sc)) (fst (scanRun ?s1))
        = map (\<lambda>l. (dropCR l, Err ?s1)) ls
      \<and> Err (snd (scanRun ?s1)) = Err ?s1"
    using Cons.IH [of ?s1] Cons.prems by simp
  have e: "Err ?s1 = Err s" "Text ?s1 = dropCR l" by (simp_all add: Err_def Text_def)
  have run: "scanRun s = (?s1 # fst (scanRun ?s1), snd (scanRun ?s1))"
    using scanRun.simps [of s] sc by simp
  show ?case unfolding run using ih e by simp
qed

lemma scanRun_cong: "Scan a = Scan b \<Longrightarrow> scanRun a = scanRun b"
  using scanRun.simps [of a] scanRun.simps [of b] by simp

lemma Scan_first_read:
  assumes "length d \<le> startBufSize"
  shows "\<exists>s1. Scan (NewScanner [(d, e)]) = Scan s1 \<and> sc_reads s1 = [] \<and> sc_pending s1 = d
    \<and> Err s1 = (if e = Some ErrEOF then None else e)"
proof -
  let ?s = "NewScanner [(d, e)]"
  have "\<exists>s1. scanStep ?s = Inr s1 \<and> sc_reads s1 = [] \<and> sc_pending s1 = d
      \<and> Err s1 = (if e = Some ErrEOF then None else e)"
    using assms
    by (auto simp: scanStep_def NewScanner_def Let_def MaxScanTokenSize_def startBufSize_def
        maxConsecutiveEmptyReads_def Err_def)
  then obtain s1 where s1: "scanStep ?s = Inr s1" "sc_reads s1 = []" "sc_pending s1 = d"
      "Err s1 = (if e = Some ErrEOF then None else e)" by blast
  have "Scan ?s = Scan s1" using Scan.simps [of ?s] s1(1) by simp
  with s1 show ?thesis by blast
qed

lemma scanned_textOf:
  assumes "list_all plainLine ls" and "length (textOf ls) \<le> startBufSize"
  shows "scanned [(textOf ls, e)] = map (\<lambda>l. (l, if e = Some ErrEOF then None else e)) ls
    \<and> scanError [(textOf ls, e)] = (if e = Some ErrEOF then None else e)"
proof -
  obtain s1 where s1: "Scan (NewScanner [(textOf ls, e)]) = Scan s1" "sc_reads s1 = []"
      "sc_pending s1 = textOf ls" "Err s1 = (if e = Some ErrEOF then None else e)"
    using Scan_first_read [OF assms(2), of e] by blast
  have run: "scanRun (NewScanner [(textOf ls, e)]) = scanRun s1"
    using s1(1) by (rule scanRun_cong)
  have nl: "list_all (\<lambda>l. CHR 0x0A \<notin> set l) ls"
    using assms(1) by (induction ls) (simp_all add: plainLine_def)
  have cr: "map (\<lambda>l. (dropCR l, x)) ls = map (\<lambda>l. (l, x)) ls" for x :: "error option"
    using assms(1) by (induction ls) (simp_all add: plainLine_def)
  show ?thesis
    using scanRun_lines [OF s1(2) s1(3) nl] s1(4) cr
    by (simp add: scanned_def scanError_def run)
qed

section \<open>How the functions extend the trace\<close>

lemma extends_iff: "extends P tr tr' \<longleftrightarrow> (\<exists>ext. tr' = tr @ ext \<and> list_all P ext)"
proof
  assume e: "extends P tr tr'"
  have "tr' = take (length tr) tr' @ drop (length tr) tr'" by simp
  with e have "tr' = tr @ drop (length tr) tr'" by (simp add: extends_def)
  moreover from e have "list_all P (drop (length tr) tr')" by (simp add: extends_def)
  ultimately show "\<exists>ext. tr' = tr @ ext \<and> list_all P ext" by blast
next
  assume "\<exists>ext. tr' = tr @ ext \<and> list_all P ext"
  then show "extends P tr tr'" by (auto simp: extends_def)
qed

lemma extends_refl: "extends P tr tr"
  by (simp add: extends_def)

lemma extends_app: "list_all P ext \<Longrightarrow> extends P tr (tr @ ext)"
  by (simp add: extends_def)

lemma extends_trans: "extends P a b \<Longrightarrow> extends P b c \<Longrightarrow> extends P a c"
  by (auto simp: extends_iff)

lemma extends_then: "extends P a b \<Longrightarrow> list_all P ext \<Longrightarrow> extends P a (b @ ext)"
  by (auto simp: extends_iff)

lemma extends_mono: "extends P a b \<Longrightarrow> (\<And>c. P c \<Longrightarrow> Q c) \<Longrightarrow> extends Q a b"
  by (auto simp: extends_iff list_all_iff)

lemma extends_attempted:
  assumes "extends P tr tr'" and "\<And>c. P c \<Longrightarrow> imageOf c = []"
  shows "attempted tr' = attempted tr"
proof -
  from assms(1) obtain ext where e: "tr' = tr @ ext" "list_all P ext"
    by (auto simp: extends_iff)
  have "concat (map imageOf ext) = []"
    using e(2) assms(2) by (induction ext) auto
  then show ?thesis by (simp add: attempted_def e(1))
qed

lemma extends_filter:
  assumes "extends P tr tr'" and "\<And>c. P c \<Longrightarrow> \<not> Q c"
  shows "filter Q tr' = filter Q tr"
proof -
  from assms(1) obtain ext where e: "tr' = tr @ ext" "list_all P ext"
    by (auto simp: extends_iff)
  have "filter Q ext = []"
    using e(2) assms(2) by (induction ext) auto
  then show ?thesis by (simp add: e(1))
qed

lemma sys_extends: "P c \<Longrightarrow> extends P tr (snd (sys env c tr))"
  by (simp add: sys_def extends_app)

lemma statMkdirAll_extends:
  assumes "P (os_Stat d)" and "P (os_MkdirAll d mode_0755)"
  shows "extends P tr (snd (statMkdirAll env d tr))"
  using assms
  by (auto simp: statMkdirAll_def sys_def extends_iff split: option.splits)

lemma mkdirPaths_extends:
  assumes "\<And>d. P (os_Stat d)" and "\<And>d. P (os_MkdirAll d mode_0755)"
  shows "extends P tr (snd (mkdirPaths env ds tr))"
proof (induction ds arbitrary: tr)
  case Nil
  show ?case by (simp add: extends_refl)
next
  case (Cons d ds)
  have s: "extends P tr (snd (statMkdirAll env d tr))"
    using assms by (intro statMkdirAll_extends)
  show ?case
  proof (cases "statMkdirAll env d tr")
    case (Pair r tr1)
    with s have s1: "extends P tr tr1" by simp
    show ?thesis
    proof (cases r)
      case None
      with Pair show ?thesis
        using extends_trans [OF s1 Cons.IH [of tr1]] by simp
    next
      case (Some e)
      with Pair s1 show ?thesis by simp
    qed
  qed
qed

lemma setupPaths_extends: "extends setupCall tr (snd (setupPaths env applyCfg tr))"
proof (cases applyCfg)
  case None
  then show ?thesis by (simp add: setupPaths_def extends_refl)
next
  case (Some cfg)
  let ?ds = "[RunDir cfg, BaseDir cfg, ConfDir cfg, RunBinDir env cfg,
              RunUnpackDir env cfg, UserProfileDir env cfg]"
  have m: "extends setupCall tr (snd (mkdirPaths env ?ds tr))"
    by (rule mkdirPaths_extends) simp_all
  obtain r tr1 where p: "mkdirPaths env ?ds tr = (r, tr1)" by (cases "mkdirPaths env ?ds tr")
  with m have m1: "extends setupCall tr tr1" by simp
  have "extends setupCall tr1 (snd (setupPaths env applyCfg tr))"
    using Some p
    by (auto simp: setupPaths_def sys_def extends_iff split: option.splits)
  with m1 show ?thesis by (rule extends_trans)
qed

lemma unpackTgz_extends:
  "extends imageCall tr (snd (unpackTgz env applyCfg tgzPath imageName tr))"
proof (cases applyCfg)
  case None
  then show ?thesis by (simp add: unpackTgz_def extends_refl)
next
  case (Some cfg)
  let ?d = "filepath_Join env (RunUnpackDir env cfg) imageName"
  have m: "extends imageCall tr (snd (statMkdirAll env ?d tr))"
    by (rule statMkdirAll_extends) simp_all
  obtain r tr1 where p: "statMkdirAll env ?d tr = (r, tr1)" by (cases "statMkdirAll env ?d tr")
  with m have m1: "extends imageCall tr tr1" by simp
  show ?thesis
  proof (cases "tgzPath = '''' \<or> imageName = ''''")
    case True
    with Some show ?thesis by (auto simp: unpackTgz_def extends_refl)
  next
    case False
    have "extends imageCall tr1 (snd (unpackTgz env applyCfg tgzPath imageName tr))"
      using Some p False
      by (auto simp: unpackTgz_def sys_def extends_iff Let_def split: option.splits)
    with m1 show ?thesis by (rule extends_trans)
  qed
qed

lemma mountSquashfs_extends:
  "extends imageCall tr (snd (mountSquashfs env applyCfg archivePath imageName tr))"
proof (cases applyCfg)
  case None
  then show ?thesis by (simp add: mountSquashfs_def extends_refl)
next
  case (Some cfg)
  let ?d = "filepath_Join env (RunUnpackDir env cfg) imageName"
  have m: "extends imageCall tr (snd (statMkdirAll env ?d tr))"
    by (rule statMkdirAll_extends) simp_all
  obtain r tr1 where p: "statMkdirAll env ?d tr = (r, tr1)" by (cases "statMkdirAll env ?d tr")
  with m have m1: "extends imageCall tr tr1" by simp
  show ?thesis
  proof (cases "archivePath = '''' \<or> imageName = ''''")
    case True
    with Some show ?thesis by (auto simp: mountSquashfs_def extends_refl)
  next
    case False
    have "extends imageCall tr1 (snd (mountSquashfs env applyCfg archivePath imageName tr))"
      using Some p False
      by (auto simp: mountSquashfs_def sys_def AttachLoopDevice_def extends_iff Let_def
          split: option.splits sum.splits)
    with m1 show ?thesis by (rule extends_trans)
  qed
qed

lemma unpackArchive_extends:
  "extends imageCall tr (snd (unpackArchive env applyCfg archive im tr))"
  by (cases "Format archive")
    (simp_all add: unpackArchive_def unpackTgz_extends mountSquashfs_extends extends_refl)

lemma propagate_extends:
  "list_all (\<lambda>s. imageCall (fst (snd s))) steps \<Longrightarrow>
   extends imageCall tr (snd (propagate env lf steps tr))"
proof (induction steps arbitrary: tr)
  case Nil
  show ?case by (simp add: extends_refl)
next
  case (Cons s steps)
  obtain xs c shown msg fin where s: "s = (xs, c, shown, msg, fin)"
    by (cases s) auto
  from Cons.prems s have c: "imageCall c"
    and rest: "list_all (\<lambda>s. imageCall (fst (snd s))) steps"
    by simp_all
  note IH = Cons.IH [OF rest]
  show ?case
  proof (cases "length xs > 0")
    case False
    with IH s show ?thesis by simp
  next
    case True
    show ?thesis
    proof (cases "fails env tr c")
      case (Some err)
      with True c s show ?thesis by (simp add: sys_def extends_iff)
    next
      case None
      let ?tr2 = "tr @ [c, log_Debug (lf @ [(''assets'', LList shown)]) fin]"
      have "extends imageCall tr ?tr2"
        using c by (simp add: extends_iff)
      then have "extends imageCall tr (snd (propagate env lf steps ?tr2))"
        using IH [of ?tr2] by (rule extends_trans)
      with True None s show ?thesis by (simp add: sys_def)
    qed
  qed
qed

lemma propagateSteps_calls:
  "list_all (\<lambda>s. imageCall (fst (snd s))) (propagateSteps imageRoot assets)"
  by (simp add: propagateSteps_def)

lemma applyImage_extends:
  "extends imageCall (tr @ [call_ArchiveFor im]) (snd (applyImage env cfg storeCache im tr))"
proof (cases "ArchiveForRes env tr storeCache im")
  case (Inl err)
  then show ?thesis by (simp add: applyImage_def ArchiveFor_def extends_iff)
next
  case (Inr archive)
  let ?tr1 = "tr @ [call_ArchiveFor im]"
  have u: "extends imageCall ?tr1 (snd (unpackArchive env (Some cfg) archive im ?tr1))"
    by (rule unpackArchive_extends)
  obtain r tr2 where p: "unpackArchive env (Some cfg) archive im ?tr1 = (r, tr2)"
    by (cases "unpackArchive env (Some cfg) archive im ?tr1")
  with u have u1: "extends imageCall ?tr1 tr2" by simp
  show ?thesis
  proof (cases r)
    case (Inl err)
    with Inr p u1 show ?thesis
      by (simp add: applyImage_def ArchiveFor_def extends_then)
  next
    case root: (Inr imageRoot)
    let ?lf = "logFields im @ [(''path'', LStr imageRoot)]"
    let ?tr3 = "tr2 @ [log_Debug ?lf ''image unpacked'', call_retrieveAssets imageRoot]"
    have u3: "extends imageCall ?tr1 ?tr3"
      using u1 by (rule extends_then) simp
    show ?thesis
    proof (cases "retrieveAssetsRes env (tr2 @ [log_Debug ?lf ''image unpacked'']) cfg imageRoot")
      case (Inl err)
      have "extends imageCall ?tr1 (?tr3 @ [log_Error ?lf ''failed retrieving assets from image: '' err])"
        using u3 by (rule extends_then) simp
      with Inr p root Inl show ?thesis
        by (simp add: applyImage_def ArchiveFor_def retrieveAssets_def Let_def)
    next
      case assets: (Inr assets)
      have "extends imageCall ?tr3 (snd (propagate env ?lf (propagateSteps imageRoot assets) ?tr3))"
        by (rule propagate_extends) (rule propagateSteps_calls)
      with u3 have "extends imageCall ?tr1
          (snd (propagate env ?lf (propagateSteps imageRoot assets) ?tr3))"
        by (rule extends_trans)
      with Inr p root assets show ?thesis
        by (simp add: applyImage_def ArchiveFor_def retrieveAssets_def Let_def)
    qed
  qed
qed

lemma applyImage_attempted:
  "attempted (snd (applyImage env cfg storeCache im tr)) = attempted tr @ [im]"
proof -
  have "attempted (snd (applyImage env cfg storeCache im tr)) = attempted (tr @ [call_ArchiveFor im])"
  proof (rule extends_attempted [OF applyImage_extends])
    fix c show "imageCall c \<Longrightarrow> imageOf c = []" by (cases c) simp_all
  qed
  then show ?thesis by (simp add: attempted_def)
qed

lemma applyImage_no_profile_write:
  "filter isProfileWrite (snd (applyImage env cfg storeCache im tr)) = filter isProfileWrite tr"
proof -
  have "filter isProfileWrite (snd (applyImage env cfg storeCache im tr))
      = filter isProfileWrite (tr @ [call_ArchiveFor im])"
  proof (rule extends_filter [OF applyImage_extends])
    fix c show "imageCall c \<Longrightarrow> \<not> isProfileWrite c" by (cases c) simp_all
  qed
  then show ?thesis by simp
qed

section \<open>The image loop\<close>

lemma imageLoop_attempted:
  "attempted (snd (imageLoop env cfg storeCache images failedImages tr)) = attempted tr @ images"
proof (induction images arbitrary: failedImages tr)
  case Nil
  show ?case by simp
next
  case (Cons im images)
  obtain ok tr1 where p: "applyImage env cfg storeCache im tr = (ok, tr1)"
    by (cases "applyImage env cfg storeCache im tr")
  then have "attempted tr1 = attempted tr @ [im]"
    using applyImage_attempted [of env cfg storeCache im tr] by simp
  with p Cons.IH show ?case by (cases ok) simp_all
qed

lemma imageLoop_no_profile_write:
  "filter isProfileWrite (snd (imageLoop env cfg storeCache images failedImages tr))
     = filter isProfileWrite tr"
proof (induction images arbitrary: failedImages tr)
  case Nil
  show ?case by simp
next
  case (Cons im images)
  obtain ok tr1 where p: "applyImage env cfg storeCache im tr = (ok, tr1)"
    by (cases "applyImage env cfg storeCache im tr")
  then have "filter isProfileWrite tr1 = filter isProfileWrite tr"
    using applyImage_no_profile_write [of env cfg storeCache im tr] by simp
  with p Cons.IH show ?case by (cases ok) simp_all
qed

lemma imageLoop_trace:
  "snd (imageLoop env cfg storeCache images failedImages tr)
     = snd (imageLoop env cfg storeCache images [] tr)"
proof (induction images arbitrary: failedImages tr)
  case Nil
  show ?case by simp
next
  case (Cons im images)
  obtain ok tr1 where p: "applyImage env cfg storeCache im tr = (ok, tr1)"
    by (cases "applyImage env cfg storeCache im tr")
  show ?case
    using p Cons.IH [of "failedImages @ [im]" tr1] Cons.IH [of "[im]" tr1]
      Cons.IH [of failedImages tr1]
    by (cases ok) simp_all
qed

lemma outcomes_length: "length (outcomes env cfg storeCache images tr) = length images"
  by (induction images arbitrary: tr) simp_all

lemma imageLoop_failed:
  "fst (imageLoop env cfg storeCache images failedImages tr)
     = failedImages
       @ map fst (filter (\<lambda>p. \<not> snd p) (zip images (outcomes env cfg storeCache images tr)))"
proof (induction images arbitrary: failedImages tr)
  case Nil
  show ?case by simp
next
  case (Cons im images)
  obtain ok tr1 where p: "applyImage env cfg storeCache im tr = (ok, tr1)"
    by (cases "applyImage env cfg storeCache im tr")
  with Cons.IH show ?case by (cases ok) simp_all
qed

lemma traceBefore_0: "traceBefore env cfg storeCache images tr 0 = tr"
  by (simp add: traceBefore_def)

lemma traceBefore_Suc:
  "traceBefore env cfg storeCache (im # images) tr (Suc i)
     = traceBefore env cfg storeCache images (snd (applyImage env cfg storeCache im tr)) i"
proof -
  obtain ok tr1 where p: "applyImage env cfg storeCache im tr = (ok, tr1)"
    by (cases "applyImage env cfg storeCache im tr")
  show ?thesis
    using p imageLoop_trace [of env cfg storeCache "take i images" "[im]" tr1]
    by (cases ok) (simp_all add: traceBefore_def)
qed

lemma outcomes_nth:
  "i < length images \<Longrightarrow>
   outcomes env cfg storeCache images tr ! i
     = fst (applyImage env cfg storeCache (images ! i)
              (traceBefore env cfg storeCache images tr i))"
proof (induction images arbitrary: tr i)
  case Nil
  then show ?case by simp
next
  case (Cons im images)
  show ?case
  proof (cases i)
    case 0
    then show ?thesis by (simp add: traceBefore_0)
  next
    case (Suc j)
    with Cons.prems have "j < length images" by simp
    from Cons.IH [OF this] Suc show ?thesis
      by (simp add: traceBefore_Suc)
  qed
qed

lemma failed_in_loop:
  assumes "k < length images"
    and "\<not> fst (applyImage env cfg storeCache (images ! k)
               (traceBefore env cfg storeCache images tr k))"
  shows "images ! k \<in> set (fst (imageLoop env cfg storeCache images failedImages tr))"
proof -
  let ?outs = "outcomes env cfg storeCache images tr"
  have "\<not> ?outs ! k" using assms outcomes_nth [of k images env cfg storeCache tr] by simp
  moreover have "(images ! k, ?outs ! k) \<in> set (zip images ?outs)"
    using assms(1) by (auto simp: set_zip outcomes_length)
  ultimately have "(images ! k, ?outs ! k) \<in> set (filter (\<lambda>p. \<not> snd p) (zip images ?outs))"
    by simp
  then have "images ! k \<in> set (map fst (filter (\<lambda>p. \<not> snd p) (zip images ?outs)))"
    by force
  then show ?thesis by (simp add: imageLoop_failed)
qed

lemma filter_zip_all_True:
  "filter (\<lambda>p. \<not> snd p) (zip xs (replicate n True)) = []"
  by (rule filter_False) (auto dest: set_zip_rightD)

lemma one_failure_list:
  assumes "k < length xs" and "length outs = length xs"
    and "\<forall>i < length xs. outs ! i = (i \<noteq> k)"
  shows "map fst (filter (\<lambda>p. \<not> snd p) (zip xs outs)) = [xs ! k]"
proof -
  have outs: "outs = replicate k True @ False # replicate (length xs - Suc k) True"
    using assms by (auto simp: nth_append nth_Cons' intro!: nth_equalityI)
  have xs: "xs = take k xs @ xs ! k # drop (Suc k) xs"
    using assms(1) by (rule id_take_nth_drop)
  have "zip xs outs = zip (take k xs) (replicate k True)
      @ (xs ! k, False) # zip (drop (Suc k) xs) (replicate (length xs - Suc k) True)"
    using assms(1) by (subst xs, subst outs) simp
  then show ?thesis by (simp add: filter_zip_all_True)
qed

lemma applyImage_unpack_failure:
  assumes "ArchiveFor env storeCache im tr = (Inr archive, tr1)"
    and "fst (unpackArchive env (Some cfg) archive im tr1) = Inl err"
  shows "\<not> fst (applyImage env cfg storeCache im tr)"
proof -
  obtain tr2 where "unpackArchive env (Some cfg) archive im tr1 = (Inl err, tr2)"
    using assms(2) by (cases "unpackArchive env (Some cfg) archive im tr1") simp
  with assms(1) show ?thesis by (simp add: applyImage_def)
qed

lemma statMkdirAll_ok:
  assumes "\<And>tr. fails env tr (os_MkdirAll d mode_0755) = None"
  shows "\<exists>ext. statMkdirAll env d tr = (None, tr @ ext) \<and> filter isEffect ext = []"
proof (cases "fails env tr (os_Stat d)")
  case None
  then have "statMkdirAll env d tr = (None, tr @ [os_Stat d])"
    by (simp add: statMkdirAll_def sys_def)
  then show ?thesis by simp
next
  case (Some err)
  show ?thesis
  proof (cases "IsNotExist err")
    case True
    with Some assms have "statMkdirAll env d tr
        = (None, tr @ [os_Stat d, os_MkdirAll d mode_0755])"
      by (simp add: statMkdirAll_def sys_def)
    then show ?thesis by simp
  next
    case False
    with Some have "statMkdirAll env d tr = (None, tr @ [os_Stat d])"
      by (simp add: statMkdirAll_def sys_def)
    then show ?thesis by simp
  qed
qed

lemma propagate_ok:
  assumes "\<And>tr s. s \<in> set steps \<Longrightarrow> fst s \<noteq> [] \<Longrightarrow> fails env tr (fst (snd s)) = None"
  shows "\<exists>ext. propagate env lf steps tr = (True, tr @ ext)
    \<and> filter isEffect ext
        = filter isEffect (map (\<lambda>s. fst (snd s)) (filter (\<lambda>s. fst s \<noteq> []) steps))"
  using assms
proof (induction steps arbitrary: tr)
  case Nil
  show ?case by simp
next
  case (Cons s steps)
  obtain xs c shown msg done' where s: "s = (xs, c, shown, msg, done')"
    by (cases s)
  have rest: "\<And>tr s. s \<in> set steps \<Longrightarrow> fst s \<noteq> [] \<Longrightarrow> fails env tr (fst (snd s)) = None"
    using Cons.prems by simp
  show ?case
  proof (cases "xs = []")
    case True
    from Cons.IH [OF rest, of tr] show ?thesis by (simp add: s True)
  next
    case False
    let ?tr1 = "tr @ [c, log_Debug (lf @ [(''assets'', LList shown)]) done']"
    have ok: "fails env tr c = None" using Cons.prems [of s tr] False by (simp add: s)
    from Cons.IH [OF rest, of ?tr1] obtain ext where
      ext: "propagate env lf steps ?tr1 = (True, ?tr1 @ ext)"
        "filter isEffect ext
          = filter isEffect (map (\<lambda>s. fst (snd s)) (filter (\<lambda>s. fst s \<noteq> []) steps))"
      by blast
    have "propagate env lf (s # steps) tr
        = (True, tr @ (c # log_Debug (lf @ [(''assets'', LList shown)]) done' # ext))"
      using False ok ext(1) by (simp add: s sys_def)
    moreover have "filter isEffect (c # log_Debug (lf @ [(''assets'', LList shown)]) done' # ext)
        = filter isEffect (map (\<lambda>s. fst (snd s)) (filter (\<lambda>s. fst s \<noteq> []) (s # steps)))"
      using False ext(2) by (simp add: s)
    ultimately show ?thesis by blast
  qed
qed

lemma propagateSteps_expected:
  "filter isEffect (map (\<lambda>s. fst (snd s))
       (filter (\<lambda>s. fst s \<noteq> []) (propagateSteps root assets)))
     = expectedPropagation root assets"
  by (simp add: propagateSteps_def expectedPropagation_def)

lemma propagateSteps_needed:
  "s \<in> set (propagateSteps root assets) \<Longrightarrow> fst s \<noteq> [] \<Longrightarrow>
   fst (snd s) \<in> set (expectedPropagation root assets)"
  by (auto simp: propagateSteps_def expectedPropagation_def)

lemma unpackArchive_ok:
  assumes w: "\<forall>t. worksFor env cfg storeCache im archive dev assets t"
  shows "\<exists>ext. unpackArchive env (Some cfg) archive im tr
        = (Inr (imageTopDir env cfg im), tr @ ext)
    \<and> filter isEffect ext = [extractCall env cfg im archive dev]"
proof -
  let ?root = "filepath_Join env (RunUnpackDir env cfg) (Name im)"
  let ?p = "Filepath archive"
  from w have ne: "Name im \<noteq> ''''" "?p \<noteq> ''''" by (simp_all add: worksFor_def)
  from w have mk: "\<And>tr. fails env tr (os_MkdirAll ?root mode_0755) = None"
    by (simp add: worksFor_def extractCalls_def imageTopDir_def)
  from statMkdirAll_ok [OF mk, of tr] obtain ext1 where
    st: "statMkdirAll env ?root tr = (None, tr @ ext1)" "filter isEffect ext1 = []"
    by blast
  from w consider "Format archive = ArchiveFormatTgz" | "Format archive = ArchiveFormatSquashfs"
    by (auto simp: worksFor_def)
  then show ?thesis
  proof cases
    case 1
    from w 1 have ok: "\<And>tr. fails env tr (os_Open ?p) = None"
        "\<And>tr. fails env tr (gzip_NewReader ?p) = None"
        "\<And>tr. fails env tr (pkgtar_ChrootUntar ?p ?root True) = None"
      by (simp_all add: worksFor_def extractCalls_def extractCall_def imageTopDir_def)
    have "unpackArchive env (Some cfg) archive im tr
        = (Inr ?root, tr @ (ext1 @ [os_Open ?p, gzip_NewReader ?p,
             pkgtar_ChrootUntar ?p ?root True, gzip_Close ?p, File_Close ?p]))"
      using 1 ne st(1) ok by (simp add: unpackArchive_def unpackTgz_def Let_def sys_def)
    moreover have "filter isEffect (ext1 @ [os_Open ?p, gzip_NewReader ?p,
             pkgtar_ChrootUntar ?p ?root True, gzip_Close ?p, File_Close ?p])
        = [extractCall env cfg im archive dev]"
      using 1 st(2) by (simp add: extractCall_def imageTopDir_def)
    ultimately show ?thesis unfolding imageTopDir_def by blast
  next
    case 2
    from w 2 have ok: "\<And>tr. AttachLoopDeviceRes env tr ?p = Inr dev"
        "\<And>tr. fails env tr (unix_Mount dev ?root ''squashfs'' MS_RDONLY '''') = None"
      by (simp_all add: worksFor_def extractCalls_def extractCall_def imageTopDir_def)
    have "unpackArchive env (Some cfg) archive im tr
        = (Inr ?root, tr @ (ext1 @ [loopback_AttachLoopDevice ?p,
             unix_Mount dev ?root ''squashfs'' MS_RDONLY '''', loop_Close dev]))"
      using 2 ne st(1) ok
      by (simp add: unpackArchive_def mountSquashfs_def AttachLoopDevice_def Let_def sys_def)
    moreover have "filter isEffect (ext1 @ [loopback_AttachLoopDevice ?p,
             unix_Mount dev ?root ''squashfs'' MS_RDONLY '''', loop_Close dev])
        = [extractCall env cfg im archive dev]"
      using 2 st(2) by (simp add: extractCall_def imageTopDir_def)
    ultimately show ?thesis unfolding imageTopDir_def by blast
  qed
qed

lemma applyImage_ok:
  assumes w: "\<forall>t. worksFor env cfg storeCache im archive dev assets t"
  shows "fst (applyImage env cfg storeCache im tr)
    \<and> filter isEffect (drop (length tr) (snd (applyImage env cfg storeCache im tr)))
        = extractCall env cfg im archive dev
          # expectedPropagation (imageTopDir env cfg im) assets"
proof -
  let ?root = "imageTopDir env cfg im"
  let ?lf = "logFields im @ [(''path'', LStr ?root)]"
  let ?tr1 = "tr @ [call_ArchiveFor im]"
  have a: "ArchiveFor env storeCache im tr = (Inr archive, ?tr1)"
    using w by (simp add: ArchiveFor_def worksFor_def)
  from unpackArchive_ok [OF w, of ?tr1] obtain ext2 where
    u: "unpackArchive env (Some cfg) archive im ?tr1 = (Inr ?root, ?tr1 @ ext2)"
      "filter isEffect ext2 = [extractCall env cfg im archive dev]"
    by blast
  let ?tr3 = "?tr1 @ ext2 @ [log_Debug ?lf ''image unpacked'', call_retrieveAssets ?root]"
  have r: "retrieveAssets env cfg ?root ((?tr1 @ ext2) @ [log_Debug ?lf ''image unpacked''])
      = (Inr assets, ?tr3)"
    using w by (simp add: retrieveAssets_def worksFor_def)
  have need: "\<And>tr s. s \<in> set (propagateSteps ?root assets) \<Longrightarrow> fst s \<noteq> [] \<Longrightarrow>
      fails env tr (fst (snd s)) = None"
    using w propagateSteps_needed [of _ ?root assets]
    by (simp add: worksFor_def list_all_iff)
  from propagate_ok [of "propagateSteps ?root assets" env ?lf ?tr3, OF need] obtain ext3 where
    p: "propagate env ?lf (propagateSteps ?root assets) ?tr3 = (True, ?tr3 @ ext3)"
      "filter isEffect ext3 = expectedPropagation ?root assets"
    by (auto simp: propagateSteps_expected)
  have "applyImage env cfg storeCache im tr = (True, ?tr3 @ ext3)"
    using a u(1) r p(1) by (simp add: applyImage_def Let_def)
  then show ?thesis using u(2) p(2) by simp
qed

lemma traceBefore_next:
  "i < length images \<Longrightarrow>
   snd (applyImage env cfg storeCache (images ! i) (traceBefore env cfg storeCache images tr i))
     = traceBefore env cfg storeCache images tr (Suc i)"
proof (induction images arbitrary: tr i)
  case Nil
  then show ?case by simp
next
  case (Cons im images)
  show ?case
  proof (cases i)
    case 0
    then show ?thesis by (simp add: traceBefore_Suc traceBefore_0)
  next
    case (Suc j)
    with Cons.prems have "j < length images" by simp
    from Cons.IH [OF this] Suc show ?thesis by (simp add: traceBefore_Suc)
  qed
qed

lemma traceBefore_callsFor:
  assumes "i < length images"
  shows "traceBefore env cfg storeCache images tr (Suc i)
    = traceBefore env cfg storeCache images tr i @ callsFor env cfg storeCache images tr i"
proof -
  let ?t = "traceBefore env cfg storeCache images tr i"
  let ?t' = "snd (applyImage env cfg storeCache (images ! i) ?t)"
  have "extends imageCall (?t @ [call_ArchiveFor (images ! i)]) ?t'"
    by (rule applyImage_extends)
  then obtain ext where "?t' = (?t @ [call_ArchiveFor (images ! i)]) @ ext"
    unfolding extends_iff by blast
  then have "?t' = ?t @ drop (length ?t) ?t'" by simp
  then show ?thesis
    using traceBefore_next [OF assms, of env cfg storeCache tr] by (simp add: callsFor_def)
qed

lemma traceBefore_concat:
  "n \<le> length images \<Longrightarrow>
   traceBefore env cfg storeCache images tr n
     = tr @ concat (map (callsFor env cfg storeCache images tr) [0..<n])"
proof (induction n)
  case 0
  show ?case by (simp add: traceBefore_0)
next
  case (Suc n)
  then show ?case by (simp add: traceBefore_callsFor)
qed

lemma imageLoop_concat:
  "snd (imageLoop env cfg storeCache images [] tr)
     = tr @ concat (map (callsFor env cfg storeCache images tr) [0..<length images])"
  using traceBefore_concat [of "length images" images env cfg storeCache tr]
  by (simp add: traceBefore_def)

section \<open>Claims about the os-release parser\<close>

lemmas scan_defs =
  NewScanner_def scanStep_def ScanLines_def Let_def MaxScanTokenSize_def startBufSize_def
  maxConsecutiveEmptyReads_def dropCR_def Err_def Text_def Scan.simps scanRun.simps

text \<open>
  C3. The claim: for a stream with the line \<^verbatim>\<open>VERSION_ID="1680.2.0"\<close> the version
  lookup returns \<^verbatim>\<open>1680.2.0\<close> without the quote characters. The parser returns the
  text after the first \<^verbatim>\<open>=\<close> as it stands, so on this stream (delivered by one
  \<^verbatim>\<open>Read\<close>, the next one returning \<^verbatim>\<open>io.EOF\<close>) the result still has both quote
  characters.
\<close>

theorem parseOsVersionID_keeps_quotes:
  "parseOsVersionID
     [(''VERSION_ID='' @ [CHR 0x22] @ ''1680.2.0'' @ [CHR 0x22, CHR 0x0A], None)]
   = Inr ([CHR 0x22] @ ''1680.2.0'' @ [CHR 0x22])
   \<and> parseOsVersionID
       [(''VERSION_ID='' @ [CHR 0x22] @ ''1680.2.0'' @ [CHR 0x22, CHR 0x0A], None)]
     \<noteq> Inr ''1680.2.0''"
  by (simp add: parseOsVersionID_def scan_defs SplitN2_def)

text \<open>
  C4, as stated, fails where the first \<^verbatim>\<open>VERSION_ID=\<close> line has an empty value: the
  loop stops there, and the empty \<open>ver\<close> yields the unknown-version error; neither
  the value of the first occurrence nor that of the second is returned.
\<close>

theorem parseOsVersionID_empty_first_counterexample:
  "scanned [(''VERSION_ID='' @ [CHR 0x0A] @ ''VERSION_ID=2'' @ [CHR 0x0A], None)]
   = [(''VERSION_ID='', None), (''VERSION_ID=2'', None)]
   \<and> list_all isVersionLine [''VERSION_ID='', ''VERSION_ID=2'']
   \<and> parseOsVersionID [(''VERSION_ID='' @ [CHR 0x0A] @ ''VERSION_ID=2'' @ [CHR 0x0A], None)]
     = Inl ErrUnknownOSVersionID"
  by (simp add: parseOsVersionID_def scanned_def scan_defs SplitN2_def isVersionLine_def)

text \<open>
  C4 (amended). For every release-info stream: (1) when no line handed out by the
  scanner is a \<^verbatim>\<open>VERSION_ID=\<close> line (the empty stream included), the result is the
  unknown-version error, unless the scan ended with an error, which is then returned
  wrapped; (2) blank lines and lines without \<^verbatim>\<open>=\<close> are ignored: two streams whose
  scans agree once those lines are removed, and end alike, have the same result;
  (3) when there are \<^verbatim>\<open>VERSION_ID=\<close> lines, the first one decides, whatever follows
  it: if the scanner has an error stored when it hands out that line, this error is
  returned wrapped; otherwise the value of the line is returned when it is not empty,
  and an empty value yields the unknown-version error. (4) A text of plain lines, each
  ended by a newline, that one \<^verbatim>\<open>Read\<close> delivers into the scanner's first buffer is
  handed out line by line, every line with the error that came with the text
  (\<^verbatim>\<open>io.EOF\<close> counting as none), and the scan ends with that error.
\<close>

theorem parseOsVersionID_streams:
  "(list_all (\<lambda>p. \<not> isVersionLine (fst p)) (scanned rd1)
      \<longrightarrow> parseOsVersionID rd1 =
            (case scanError rd1 of
               None \<Rightarrow> Inl ErrUnknownOSVersionID
             | Some e \<Rightarrow> Inl (ErrWrap e ''failed to parse os-release file'')))
   \<and> (filter (\<lambda>p. significant (fst p)) (scanned rd2)
          = filter (\<lambda>p. significant (fst p)) (scanned rd2')
        \<and> scanError rd2 = scanError rd2'
      \<longrightarrow> parseOsVersionID rd2 = parseOsVersionID rd2')
   \<and> (scanned rd3 = pre @ (''VERSION_ID='' @ v, el) # post
        \<and> list_all (\<lambda>p. \<not> isVersionLine (fst p)) pre
      \<longrightarrow> parseOsVersionID rd3 =
            (case el of
               Some e \<Rightarrow> Inl (ErrWrap e ''failed to parse os-release file'')
             | None \<Rightarrow> if v = '''' then Inl ErrUnknownOSVersionID else Inr v))
   \<and> (list_all plainLine ls \<and> length (textOf ls) \<le> startBufSize
      \<longrightarrow> scanned [(textOf ls, e)] = map (\<lambda>l. (l, if e = Some ErrEOF then None else e)) ls
          \<and> scanError [(textOf ls, e)] = (if e = Some ErrEOF then None else e))"
proof (intro conjI impI)
  assume "list_all (\<lambda>p. \<not> isVersionLine (fst p)) (scanned rd1)"
  then show "parseOsVersionID rd1 =
      (case scanError rd1 of
         None \<Rightarrow> Inl ErrUnknownOSVersionID
       | Some e \<Rightarrow> Inl (ErrWrap e ''failed to parse os-release file''))"
    by (rule parse_no_version)
next
  assume "filter (\<lambda>p. significant (fst p)) (scanned rd2)
      = filter (\<lambda>p. significant (fst p)) (scanned rd2')
    \<and> scanError rd2 = scanError rd2'"
  then show "parseOsVersionID rd2 = parseOsVersionID rd2'"
    using parse_ignore [of rd2 rd2'] by blast
next
  assume "scanned rd3 = pre @ (''VERSION_ID='' @ v, el) # post
    \<and> list_all (\<lambda>p. \<not> isVersionLine (fst p)) pre"
  then show "parseOsVersionID rd3 =
      (case el of
         Some e \<Rightarrow> Inl (ErrWrap e ''failed to parse os-release file'')
       | None \<Rightarrow> if v = '''' then Inl ErrUnknownOSVersionID else Inr v)"
    using parse_first [of rd3 pre v el post] by blast
next
  assume "list_all plainLine ls \<and> length (textOf ls) \<le> startBufSize"
  then show "scanned [(textOf ls, e)]
      = map (\<lambda>l. (l, if e = Some ErrEOF then None else e)) ls"
    using scanned_textOf [of ls e] by blast
next
  assume "list_all plainLine ls \<and> length (textOf ls) \<le> startBufSize"
  then show "scanError [(textOf ls, e)] = (if e = Some ErrEOF then None else e)"
    using scanned_textOf [of ls e] by blast
qed

theorem parseOsVersionID_streams_witness:
  "parseOsVersionID [(textOf ['''', ''ID=flatcar'', ''junk''], None)]
     = Inl ErrUnknownOSVersionID
   \<and> parseOsVersionID [(textOf ['''', ''ID=flatcar'', ''junk'', ''VERSION_ID=1''], None)]
     = parseOsVersionID [(textOf [''ID=flatcar'', ''VERSION_ID=1''], None)]
   \<and> parseOsVersionID
        [(textOf ['''', ''ID=flatcar'', ''junk'', ''VERSION_ID=2705.0.0'', ''VERSION_ID=9''],
          None)]
     = Inr ''2705.0.0''
   \<and> scanned [(textOf ['''', ''ID=flatcar'', ''junk''], None)]
     = [('''', None), (''ID=flatcar'', None), (''junk'', None)]
   \<and> scanned [(textOf [''ID=flatcar''] @ ''VERSION_ID=2'', None), ([], Some (ErrSys ''boom''))]
     = [(''ID=flatcar'', None), (''VERSION_ID=2'', Some (ErrSys ''boom''))]
   \<and> parseOsVersionID
        [(textOf [''ID=flatcar''] @ ''VERSION_ID=2'', None), ([], Some (ErrSys ''boom''))]
     = Inl (ErrWrap (ErrSys ''boom'') ''failed to parse os-release file'')
   \<and> parseOsVersionID [(textOf [''ID=flatcar''], Some (ErrSys ''boom''))]
     = Inl (ErrWrap (ErrSys ''boom'') ''failed to parse os-release file'')"
  using parseOsVersionID_streams
    [where ?rd1.0 = "[(textOf ['''', ''ID=flatcar'', ''junk''], None)]"
       and ?rd2.0 = "[(textOf ['''', ''ID=flatcar'', ''junk'', ''VERSION_ID=1''], None)]"
       and rd2' = "[(textOf [''ID=flatcar'', ''VERSION_ID=1''], None)]"
       and ?rd3.0 = "[(textOf ['''', ''ID=flatcar'', ''junk'', ''VERSION_ID=2705.0.0'',
                               ''VERSION_ID=9''], None)]"
       and pre = "[('''', None), (''ID=flatcar'', None), (''junk'', None)]"
       and v = "''2705.0.0''" and el = None
       and post = "[(''VERSION_ID=9'', None)]"
       and ls = "['''', ''ID=flatcar'', ''junk'']" and e = None]
    parseOsVersionID_streams
    [where ?rd1.0 = "[(textOf [''ID=flatcar''], Some (ErrSys ''boom''))]"
       and ?rd2.0 = "[]" and rd2' = "[]"
       and ?rd3.0 = "[(textOf [''ID=flatcar''] @ ''VERSION_ID=2'', None),
                      ([], Some (ErrSys ''boom''))]"
       and pre = "[(''ID=flatcar'', None)]"
       and v = "''2''" and el = "Some (ErrSys ''boom'')"
       and post = "[]"
       and ls = "[''ID=flatcar'']" and e = "Some (ErrSys ''boom'')"]
  by (simp add: scanned_def scanError_def scan_defs textOf_def isVersionLine_def
      significant_def plainLine_def)

section \<open>Claims about the remote URL template\<close>

text \<open>
  C9. \<^verbatim>\<open>evaluateURL\<close> checks its preconditions in a fixed order: a nil remote yields
  the nil-remote error whatever the mountpoint is; a remote with an empty mountpoint
  yields the empty-mountpoint error whatever its template is; a remote with a
  mountpoint and an empty template yields the empty-template error; and the three
  errors are distinct values that are compared by equality.
\<close>

theorem evaluateURL_preconditions:
  "evaluateURL renv None m = Inl errNilRemote
   \<and> evaluateURL renv (Some r) '''' = Inl errEmptyUsrMountpoint
   \<and> (m \<noteq> '''' \<and> TemplateURL r = '''' \<longrightarrow> evaluateURL renv (Some r) m = Inl errEmptyTemplateURL)
   \<and> distinct [errNilRemote, errEmptyUsrMountpoint, errEmptyTemplateURL]"
  by (simp add: evaluateURL_def)

theorem evaluateURL_preconditions_witness:
  "evaluateURL demoRemoteEnv None ''/usr'' = Inl errNilRemote
   \<and> evaluateURL demoRemoteEnv (Some \<lparr>TemplateURL = ''''\<rparr>) '''' = Inl errEmptyUsrMountpoint
   \<and> evaluateURL demoRemoteEnv (Some \<lparr>TemplateURL = ''''\<rparr>) ''/usr'' = Inl errEmptyTemplateURL"
  using evaluateURL_preconditions [of demoRemoteEnv "''/usr''" "\<lparr>TemplateURL = ''''\<rparr>"]
  by simp

section \<open>Claims about the apply pipeline\<close>

lemmas demo_defs =
  ApplyProfile_def setupPaths_def statMkdirAll_def sys_def demoEnv_def demoCfg_def
  demoFails_def IsNotExist_def mergeProfiles_def applyImages_def NewStoreCache_def
  applyImage_def ArchiveFor_def demoArchiveFor_def demoImage_def unpackArchive_def
  unpackTgz_def mountSquashfs_def AttachLoopDevice_def retrieveAssets_def demoAssets_def
  propagateSteps_def logFields_def Let_def attempted_def traceBefore_def

text \<open>
  C2. For a merged list of images in which the image at position \<open>k\<close> (any
  position, so also one that is neither first nor last) fails at extraction, its
  archive having been resolved, while the world works for every other image (its
  archive is resolved, and no call that extracts it or propagates its assets fails,
  in whatever trace):
  \<^verbatim>\<open>applyImages\<close> asks the store cache for every image of the list in order; the loop
  body succeeds for every other image, and the calls made for such an image extract
  its archive and then propagate each kind of asset that it has; the list of failed
  images is the one image; and the error returned reports a failure count of
  exactly 1 and nothing else. The trace of the run is the trace after the store
  cache was constructed, followed by the calls made for each image in turn.
\<close>

theorem applyImages_one_extraction_failure:
  assumes store: "NewStoreCache env (StorePaths cfg) tr = (Inr storeCache, tr0)"
    and k: "k < length images"
    and others: "\<forall>i < length images. i \<noteq> k \<longrightarrow>
        (\<forall>t. worksFor env cfg storeCache (images ! i) (archives i) (devs i) (assets i) t)"
    and resolved: "ArchiveFor env storeCache (images ! k)
        (traceBefore env cfg storeCache images tr0 k) = (Inr archive, trk)"
    and extraction: "fst (unpackArchive env (Some cfg) archive (images ! k) trk) = Inl err"
  shows "fst (applyImages env (Some cfg) images tr) = Some (ErrFailedInstall 1)
    \<and> attempted (snd (applyImages env (Some cfg) images tr)) = attempted tr @ images
    \<and> outcomes env cfg storeCache images tr0 = map (\<lambda>i. i \<noteq> k) [0..<length images]
    \<and> fst (imageLoop env cfg storeCache images [] tr0) = [images ! k]
    \<and> snd (applyImages env (Some cfg) images tr)
        = tr0 @ concat (map (callsFor env cfg storeCache images tr0) [0..<length images])
    \<and> (\<forall>i < length images. i \<noteq> k \<longrightarrow>
          filter isEffect (callsFor env cfg storeCache images tr0 i)
            = extractCall env cfg (images ! i) (archives i) (devs i)
              # expectedPropagation (imageTopDir env cfg (images ! i)) (assets i))"
proof -
  let ?outs = "outcomes env cfg storeCache images tr0"
  have atk: "\<not> fst (applyImage env cfg storeCache (images ! k)
                      (traceBefore env cfg storeCache images tr0 k))"
    using resolved extraction by (rule applyImage_unpack_failure)
  have ok: "fst (applyImage env cfg storeCache (images ! i) t)
      \<and> filter isEffect (drop (length t) (snd (applyImage env cfg storeCache (images ! i) t)))
          = extractCall env cfg (images ! i) (archives i) (devs i)
            # expectedPropagation (imageTopDir env cfg (images ! i)) (assets i)"
    if "i < length images" and "i \<noteq> k" for i t
    using others that applyImage_ok [of env cfg storeCache "images ! i" "archives i" "devs i"
        "assets i" t]
    by blast
  have nth: "\<forall>i < length images. ?outs ! i = (i \<noteq> k)"
    using ok atk by (auto simp: outcomes_nth)
  have outs: "?outs = map (\<lambda>i. i \<noteq> k) [0..<length images]"
    using nth by (auto simp: outcomes_length intro!: nth_equalityI)
  have failed: "fst (imageLoop env cfg storeCache images [] tr0) = [images ! k]"
    using one_failure_list [OF k _ nth] by (simp add: imageLoop_failed outcomes_length)
  obtain tr1 where loop: "imageLoop env cfg storeCache images [] tr0 = ([images ! k], tr1)"
    using failed by (cases "imageLoop env cfg storeCache images [] tr0") simp
  have tr0: "tr0 = tr @ [call_NewStoreCache (StorePaths cfg)]"
    using store by (auto simp: NewStoreCache_def)
  have "attempted tr1 = attempted tr0 @ images"
    using imageLoop_attempted [of env cfg storeCache images "[]" tr0] loop by simp
  then have att: "attempted tr1 = attempted tr @ images"
    by (simp add: tr0 attempted_def)
  have res: "applyImages env (Some cfg) images tr = (Some (ErrFailedInstall 1), tr1)"
    using store loop by (simp add: applyImages_def)
  have trace: "tr1 = tr0 @ concat (map (callsFor env cfg storeCache images tr0)
      [0..<length images])"
    using imageLoop_concat [of env cfg storeCache images tr0] loop by simp
  have eff: "\<forall>i < length images. i \<noteq> k \<longrightarrow>
      filter isEffect (callsFor env cfg storeCache images tr0 i)
        = extractCall env cfg (images ! i) (archives i) (devs i)
          # expectedPropagation (imageTopDir env cfg (images ! i)) (assets i)"
    using ok by (simp add: callsFor_def)
  show ?thesis using res att outs failed trace eff by simp
qed

theorem applyImages_one_extraction_failure_witness:
  "fst (applyImages (demoEnv []) (Some demoCfg)
          [demoImage ''a'', demoImage ''broken'', demoImage ''sq''] [])
     = Some (ErrFailedInstall 1)
   \<and> attempted (snd (applyImages (demoEnv []) (Some demoCfg)
                        [demoImage ''a'', demoImage ''broken'', demoImage ''sq''] []))
     = [demoImage ''a'', demoImage ''broken'', demoImage ''sq'']
   \<and> outcomes (demoEnv []) demoCfg () [demoImage ''a'', demoImage ''broken'', demoImage ''sq'']
        [call_NewStoreCache [''/store'']] = [True, False, True]
   \<and> fst (imageLoop (demoEnv []) demoCfg ()
            [demoImage ''a'', demoImage ''broken'', demoImage ''sq''] []
            [call_NewStoreCache [''/store'']]) = [demoImage ''broken'']
   \<and> filter isEffect (callsFor (demoEnv []) demoCfg ()
        [demoImage ''a'', demoImage ''broken'', demoImage ''sq'']
        [call_NewStoreCache [''/store'']] 0)
     = [pkgtar_ChrootUntar ''/store/a.tgz'' ''/run/torcx/unpack/a'' True,
        call_propagateBins ''/run/torcx/unpack/a'' [''/run/torcx/unpack/a/bin/tool''],
        call_propagateSystemdUnits ''/run/torcx/unpack/a'' [''/run/torcx/unpack/a/tool.service'']]
   \<and> filter isEffect (callsFor (demoEnv []) demoCfg ()
        [demoImage ''a'', demoImage ''broken'', demoImage ''sq'']
        [call_NewStoreCache [''/store'']] 2)
     = [unix_Mount ''/dev/loop0'' ''/run/torcx/unpack/sq'' ''squashfs'' MS_RDONLY '''',
        call_propagateBins ''/run/torcx/unpack/sq'' [''/run/torcx/unpack/sq/bin/tool''],
        call_propagateSystemdUnits ''/run/torcx/unpack/sq''
          [''/run/torcx/unpack/sq/tool.service'']]"
proof -
  let ?env = "demoEnv [] :: unit Env"
  let ?ims = "[demoImage ''a'', demoImage ''broken'', demoImage ''sq'']"
  let ?tr0 = "[call_NewStoreCache [''/store'']]"
  let ?trk = "traceBefore ?env demoCfg () ?ims ?tr0 1 @ [call_ArchiveFor (demoImage ''broken'')]"
  let ?archives = "\<lambda>i::nat. if i = 0
      then \<lparr>Filepath = ''/store/a.tgz'', Format = ArchiveFormatTgz\<rparr>
      else \<lparr>Filepath = ''/store/sq.squashfs'', Format = ArchiveFormatSquashfs\<rparr>"
  let ?devs = "\<lambda>i::nat. ''/dev/loop0''"
  let ?assets = "\<lambda>i::nat. demoAssets (imageTopDir ?env demoCfg (?ims ! i))"
  have store: "NewStoreCache ?env (StorePaths demoCfg) [] = (Inr (), ?tr0)"
    by (simp add: demo_defs)
  have k: "(1::nat) < length ?ims" by simp
  have others: "\<forall>i < length ?ims. i \<noteq> 1 \<longrightarrow>
      (\<forall>t. worksFor ?env demoCfg () (?ims ! i) (?archives i) (?devs i) (?assets i) t)"
  proof (intro allI impI)
    fix i :: nat and t :: "call list"
    assume "i < length ?ims" and "i \<noteq> 1"
    then have "i = 0 \<or> i = 2" by auto
    then show "worksFor ?env demoCfg () (?ims ! i) (?archives i) (?devs i) (?assets i) t"
      by (elim disjE)
        (simp_all add: worksFor_def extractCalls_def extractCall_def expectedPropagation_def
          imageTopDir_def demoEnv_def demoCfg_def demoFails_def demoArchiveFor_def demoImage_def
          demoAssets_def)
  qed
  have resolved: "ArchiveFor ?env () (?ims ! 1) (traceBefore ?env demoCfg () ?ims ?tr0 1)
      = (Inr \<lparr>Filepath = ''/store/broken.tgz'', Format = ArchiveFormatTgz\<rparr>, ?trk)"
    by (simp add: ArchiveFor_def demoEnv_def demoArchiveFor_def demoImage_def)
  have extraction: "fst (unpackArchive ?env (Some demoCfg)
        \<lparr>Filepath = ''/store/broken.tgz'', Format = ArchiveFormatTgz\<rparr> (?ims ! 1) ?trk)
      = Inl (ErrWrapf (ErrSys ''unexpected EOF'') ''unpacking %q'' ''/store/broken.tgz'')"
    by (simp add: unpackArchive_def unpackTgz_def statMkdirAll_def sys_def demoEnv_def
        demoCfg_def demoFails_def IsNotExist_def demoImage_def Let_def)
  have vals: "extractCall ?env demoCfg (?ims ! 0) (?archives 0) (?devs 0)
        = pkgtar_ChrootUntar ''/store/a.tgz'' ''/run/torcx/unpack/a'' True"
      "extractCall ?env demoCfg (?ims ! 2) (?archives 2) (?devs 2)
        = unix_Mount ''/dev/loop0'' ''/run/torcx/unpack/sq'' ''squashfs'' MS_RDONLY ''''"
      "expectedPropagation (imageTopDir ?env demoCfg (?ims ! 0)) (?assets 0)
        = [call_propagateBins ''/run/torcx/unpack/a'' [''/run/torcx/unpack/a/bin/tool''],
           call_propagateSystemdUnits ''/run/torcx/unpack/a''
             [''/run/torcx/unpack/a/tool.service'']]"
      "expectedPropagation (imageTopDir ?env demoCfg (?ims ! 2)) (?assets 2)
        = [call_propagateBins ''/run/torcx/unpack/sq'' [''/run/torcx/unpack/sq/bin/tool''],
           call_propagateSystemdUnits ''/run/torcx/unpack/sq''
             [''/run/torcx/unpack/sq/tool.service'']]"
    by (simp_all add: extractCall_def expectedPropagation_def imageTopDir_def demoEnv_def
        demoCfg_def demoImage_def demoAssets_def)
  have run: "fst (applyImages ?env (Some demoCfg) ?ims []) = Some (ErrFailedInstall 1)
      \<and> attempted (snd (applyImages ?env (Some demoCfg) ?ims [])) = attempted [] @ ?ims
      \<and> outcomes ?env demoCfg () ?ims ?tr0 = map (\<lambda>i. i \<noteq> 1) [0..<length ?ims]
      \<and> fst (imageLoop ?env demoCfg () ?ims [] ?tr0) = [?ims ! 1]
      \<and> snd (applyImages ?env (Some demoCfg) ?ims [])
          = ?tr0 @ concat (map (callsFor ?env demoCfg () ?ims ?tr0) [0..<length ?ims])
      \<and> (\<forall>i < length ?ims. i \<noteq> 1 \<longrightarrow>
            filter isEffect (callsFor ?env demoCfg () ?ims ?tr0 i)
              = extractCall ?env demoCfg (?ims ! i) (?archives i) (?devs i)
                # expectedPropagation (imageTopDir ?env demoCfg (?ims ! i)) (?assets i))"
    using applyImages_one_extraction_failure
      [OF store k others resolved extraction] .
  from run have e0: "filter isEffect (callsFor ?env demoCfg () ?ims ?tr0 0)
      = extractCall ?env demoCfg (?ims ! 0) (?archives 0) (?devs 0)
        # expectedPropagation (imageTopDir ?env demoCfg (?ims ! 0)) (?assets 0)"
    by simp
  from run have e2: "filter isEffect (callsFor ?env demoCfg () ?ims ?tr0 2)
      = extractCall ?env demoCfg (?ims ! 2) (?archives 2) (?devs 2)
        # expectedPropagation (imageTopDir ?env demoCfg (?ims ! 2)) (?assets 2)"
    by simp
  have b1: "fst (applyImages ?env (Some demoCfg) ?ims []) = Some (ErrFailedInstall 1)"
    using run [THEN conjunct1] .
  have b2: "attempted (snd (applyImages ?env (Some demoCfg) ?ims [])) = ?ims"
    using run [THEN conjunct2, THEN conjunct1] by (simp add: attempted_def)
  have b3: "outcomes ?env demoCfg () ?ims ?tr0 = [True, False, True]"
    using run [THEN conjunct2, THEN conjunct2, THEN conjunct1]
    by (simp del: outcomes.simps add: upt_rec)
  have b4: "fst (imageLoop ?env demoCfg () ?ims [] ?tr0) = [demoImage ''broken'']"
    using run [THEN conjunct2, THEN conjunct2, THEN conjunct2, THEN conjunct1]
    by (simp del: imageLoop.simps)
  show ?thesis
    unfolding e0 e2 vals b1 b2 b3 b4 by simp
qed

text \<open>
  C8. For every image of the list whose resolved archive has a format other than
  tar-gzip and squashfs: the loop body fails for it with the unrecognized-format
  error that carries the archive, which it logs for the image right after the store
  cache answered; the image is in the list of failed images at the end of the loop;
  and the loop still asks the store cache for every image of the list.
\<close>

theorem applyImage_unrecognized_format:
  assumes k: "k < length images"
    and resolved: "ArchiveFor env storeCache (images ! k)
        (traceBefore env cfg storeCache images tr0 k) = (Inr archive, tr1)"
    and format: "Format archive \<noteq> ArchiveFormatTgz \<and> Format archive \<noteq> ArchiveFormatSquashfs"
  shows "applyImage env cfg storeCache (images ! k) (traceBefore env cfg storeCache images tr0 k)
      = (False, tr1 @ [log_Error (logFields (images ! k)) ''failed to unpack: ''
                         (ErrUnrecognizedFormat archive)])
    \<and> images ! k \<in> set (fst (imageLoop env cfg storeCache images [] tr0))
    \<and> attempted (snd (imageLoop env cfg storeCache images [] tr0)) = attempted tr0 @ images"
proof -
  from format obtain x where x: "Format archive = ArchiveFormatOther x"
    by (cases "Format archive") auto
  then have u: "unpackArchive env (Some cfg) archive (images ! k) tr1
      = (Inl (ErrUnrecognizedFormat archive), tr1)"
    by (simp add: unpackArchive_def)
  have body: "applyImage env cfg storeCache (images ! k)
        (traceBefore env cfg storeCache images tr0 k)
      = (False, tr1 @ [log_Error (logFields (images ! k)) ''failed to unpack: ''
                         (ErrUnrecognizedFormat archive)])"
    using resolved u by (simp add: applyImage_def)
  then have "images ! k \<in> set (fst (imageLoop env cfg storeCache images [] tr0))"
    using failed_in_loop [OF k, of env cfg storeCache tr0 "[]"] by simp
  with body show ?thesis by (simp add: imageLoop_attempted)
qed

theorem applyImage_unrecognized_format_witness:
  "applyImage (demoEnv []) demoCfg () (demoImage ''odd'')
      (traceBefore (demoEnv []) demoCfg () [demoImage ''a'', demoImage ''odd'', demoImage ''b'']
         [] 1)
     = (False,
        traceBefore (demoEnv []) demoCfg () [demoImage ''a'', demoImage ''odd'', demoImage ''b'']
          [] 1
        @ [call_ArchiveFor (demoImage ''odd''),
           log_Error (logFields (demoImage ''odd'')) ''failed to unpack: ''
             (ErrUnrecognizedFormat
                \<lparr>Filepath = ''/store/odd.zip'', Format = ArchiveFormatOther ''zip''\<rparr>)])
   \<and> demoImage ''odd''
       \<in> set (fst (imageLoop (demoEnv []) demoCfg ()
                     [demoImage ''a'', demoImage ''odd'', demoImage ''b''] [] []))
   \<and> attempted (snd (imageLoop (demoEnv []) demoCfg ()
                        [demoImage ''a'', demoImage ''odd'', demoImage ''b''] [] []))
     = [demoImage ''a'', demoImage ''odd'', demoImage ''b'']"
proof -
  let ?env = "demoEnv [] :: unit Env"
  let ?ims = "[demoImage ''a'', demoImage ''odd'', demoImage ''b'']"
  let ?arch = "\<lparr>Filepath = ''/store/odd.zip'', Format = ArchiveFormatOther ''zip''\<rparr>"
  have k: "(1::nat) < length ?ims" by simp
  have resolved: "ArchiveFor ?env () (?ims ! 1) (traceBefore ?env demoCfg () ?ims [] 1)
      = (Inr ?arch, traceBefore ?env demoCfg () ?ims [] 1 @ [call_ArchiveFor (?ims ! 1)])"
    by (simp add: ArchiveFor_def demoEnv_def demoArchiveFor_def demoImage_def)
  have format: "Format ?arch \<noteq> ArchiveFormatTgz \<and> Format ?arch \<noteq> ArchiveFormatSquashfs"
    by simp
  show ?thesis
    using applyImage_unrecognized_format [OF k resolved format]
    by (simp del: imageLoop.simps add: attempted_def demoImage_def)
qed

text \<open>
  C1, as stated, fails: in the concrete world, with the merged images \<^verbatim>\<open>a\<close>,
  \<^verbatim>\<open>broken\<close>, \<^verbatim>\<open>b\<close> of which \<^verbatim>\<open>broken\<close> cannot be extracted, path setup and profile
  merge succeed and all three images are attempted, but \<^verbatim>\<open>ApplyProfile\<close> returns the
  error of \<^verbatim>\<open>applyImages\<close> and never creates or encodes the run profile.
\<close>

theorem ApplyProfile_image_failure_counterexample:
  "fst (setupPaths (demoEnv [demoImage ''a'', demoImage ''broken'', demoImage ''b''])
         (Some demoCfg) []) = None
   \<and> fst (ApplyProfile (demoEnv [demoImage ''a'', demoImage ''broken'', demoImage ''b''])
            (Some demoCfg) []) = Some (ErrFailedInstall 1)
   \<and> attempted (snd (ApplyProfile (demoEnv [demoImage ''a'', demoImage ''broken'', demoImage ''b''])
                       (Some demoCfg) []))
       = [demoImage ''a'', demoImage ''broken'', demoImage ''b'']
   \<and> filter isProfileWrite
        (snd (ApplyProfile (demoEnv [demoImage ''a'', demoImage ''broken'', demoImage ''b''])
                (Some demoCfg) [])) = []"
  by (simp add: ApplyProfile_def setupPaths_def statMkdirAll_def sys_def demoEnv_def demoCfg_def
      demoFails_def IsNotExist_def mergeProfiles_def applyImages_def NewStoreCache_def
      applyImage_def ArchiveFor_def demoArchiveFor_def demoImage_def unpackArchive_def
      unpackTgz_def mountSquashfs_def retrieveAssets_def demoAssets_def propagateSteps_def
      logFields_def Let_def attempted_def)

text \<open>
  C1 (amended). An image that fails does not stop the per-image loop: when the
  configuration, path setup, profile merge and the construction of the store cache
  succeed, the store cache is asked for every image of the merged list in order.
  When at least one image has failed, \<^verbatim>\<open>ApplyProfile\<close> returns the aggregate error
  with the number of failed images right after the loop, and the run ends there:
  no file is created and no run profile is encoded.
\<close>

theorem ApplyProfile_image_failure:
  assumes paths: "setupPaths env (Some cfg) tr = (None, tr1)"
    and merge: "mergeProfiles env cfg tr1 = (Inr images, tr2)"
    and store: "NewStoreCache env (StorePaths cfg) tr2 = (Inr storeCache, tr3)"
    and loop: "imageLoop env cfg storeCache images [] tr3 = (failedImages, tr4)"
    and failed: "failedImages \<noteq> []"
  shows "ApplyProfile env (Some cfg) tr = (Some (ErrFailedInstall (length failedImages)), tr4)
    \<and> attempted tr4 = attempted tr @ images
    \<and> filter isProfileWrite tr4 = filter isProfileWrite tr"
proof -
  have images: "images \<noteq> []"
    using loop failed by (cases images) auto
  have app: "applyImages env (Some cfg) images tr2
      = (Some (ErrFailedInstall (length failedImages)), tr4)"
    using store loop failed by (simp add: applyImages_def)
  have res: "ApplyProfile env (Some cfg) tr
      = (Some (ErrFailedInstall (length failedImages)), tr4)"
    using paths merge images app by (simp add: ApplyProfile_def)
  have e1: "extends setupCall tr tr1"
    using setupPaths_extends [of tr env "Some cfg"] paths by simp
  have tr2: "tr2 = tr1 @ [call_mergeProfiles]"
    using merge by (auto simp: mergeProfiles_def)
  have tr3: "tr3 = tr2 @ [call_NewStoreCache (StorePaths cfg)]"
    using store by (auto simp: NewStoreCache_def)
  have a1: "attempted tr1 = attempted tr"
  proof (rule extends_attempted [OF e1])
    fix c show "setupCall c \<Longrightarrow> imageOf c = []" by (cases c) simp_all
  qed
  have f1: "filter isProfileWrite tr1 = filter isProfileWrite tr"
  proof (rule extends_filter [OF e1])
    fix c show "setupCall c \<Longrightarrow> \<not> isProfileWrite c" by (cases c) simp_all
  qed
  have "attempted tr4 = attempted tr3 @ images"
    using imageLoop_attempted [of env cfg storeCache images "[]" tr3] loop by simp
  then have att: "attempted tr4 = attempted tr @ images"
    using a1 by (simp add: tr2 tr3 attempted_def)
  have "filter isProfileWrite tr4 = filter isProfileWrite tr3"
    using imageLoop_no_profile_write [of env cfg storeCache images "[]" tr3] loop by simp
  then have "filter isProfileWrite tr4 = filter isProfileWrite tr"
    using f1 by (simp add: tr2 tr3)
  with res att show ?thesis by simp
qed


theorem ApplyProfile_image_failure_witness:
  "fst (ApplyProfile (demoEnv [demoImage ''missing'', demoImage ''sq'', demoImage ''odd''])
          (Some demoCfg) []) = Some (ErrFailedInstall 2)
   \<and> attempted (snd (ApplyProfile
                        (demoEnv [demoImage ''missing'', demoImage ''sq'', demoImage ''odd''])
                        (Some demoCfg) []))
     = [demoImage ''missing'', demoImage ''sq'', demoImage ''odd'']
   \<and> filter isProfileWrite
       (snd (ApplyProfile (demoEnv [demoImage ''missing'', demoImage ''sq'', demoImage ''odd''])
               (Some demoCfg) [])) = []"
proof -
  let ?ims = "[demoImage ''missing'', demoImage ''sq'', demoImage ''odd'']"
  let ?env = "demoEnv ?ims"
  let ?tr1 = "snd (setupPaths ?env (Some demoCfg) [])"
  let ?tr2 = "?tr1 @ [call_mergeProfiles]"
  let ?tr3 = "?tr2 @ [call_NewStoreCache [''/store'']]"
  let ?tr4 = "snd (imageLoop ?env demoCfg () ?ims [] ?tr3)"
  have paths: "setupPaths ?env (Some demoCfg) [] = (None, ?tr1)"
    by (simp add: demo_defs)
  have merge: "mergeProfiles ?env demoCfg ?tr1 = (Inr ?ims, ?tr2)"
    by (simp add: mergeProfiles_def demoEnv_def)
  have store: "NewStoreCache ?env (StorePaths demoCfg) ?tr2 = (Inr (), ?tr3)"
    by (simp add: NewStoreCache_def demoEnv_def demoCfg_def)
  have loop: "imageLoop ?env demoCfg () ?ims [] ?tr3
      = ([demoImage ''missing'', demoImage ''odd''], ?tr4)"
    by (simp add: demo_defs)
  have failed: "[demoImage ''missing'', demoImage ''odd''] \<noteq> []" by simp
  show ?thesis
    using ApplyProfile_image_failure [OF paths merge store loop failed]
    by (simp del: imageLoop.simps add: attempted_def)
qed


text \<open>
  C6. When path setup, profile merge and the image phase have succeeded and the
  run-profile file could be created and the profile encoded, the final step of
  \<^verbatim>\<open>ApplyProfile\<close> is: create the file at the run-profile path, encode into it, with
  an indent of two spaces, the profile of kind \<^verbatim>\<open>profile-manifest-v0\<close> (which is not
  the kind \<^verbatim>\<open>profile-manifest-v1\<close> of the profiles read) with the merged images, then
  chmod that file to mode \<^verbatim>\<open>0444\<close>, whose outcome is what \<^verbatim>\<open>ApplyProfile\<close> returns;
  the deferred flush of the buffered writer and the close of the file come last.
\<close>

theorem ApplyProfile_writes_run_profile:
  assumes paths: "setupPaths env (Some cfg) tr = (None, tr1)"
    and merge: "mergeProfiles env cfg tr1 = (Inr images, tr2)"
    and applied: "(if length images > 0 then applyImages env (Some cfg) images tr2
                   else (None, tr2)) = (None, tr3)"
    and created: "fails env tr3 (os_Create (RunProfile env cfg)) = None"
    and encoded: "fails env (tr3 @ [os_Create (RunProfile env cfg)])
                    (Encoder_Encode (RunProfile env cfg) '''' ''  ''
                       \<lparr>Kind = ProfileManifestV0K, Value = ImagesToJSONV0 env images\<rparr>) = None"
  shows "(let rpp = RunProfile env cfg;
              tr5 = tr3 @ [os_Create rpp,
                           Encoder_Encode rpp '''' ''  ''
                             \<lparr>Kind = ''profile-manifest-v0'',
                              Value = \<lparr>Images = map (ToJSONV0 env) images\<rparr>\<rparr>]
          in ApplyProfile env (Some cfg) tr =
             (case fails env tr5 (os_Chmod rpp mode_0444) of
                Some err \<Rightarrow>
                  (Some err, tr5 @ [os_Chmod rpp mode_0444, Writer_Flush rpp, File_Close rpp])
              | None \<Rightarrow>
                  (None,
                   tr5 @ [os_Chmod rpp mode_0444,
                          log_Debug [(''upper profile'', LStr (UpperProfile cfg)),
                                     (''sealed profile'', LStr rpp)] ''profile applied'',
                          Writer_Flush rpp, File_Close rpp])))
    \<and> ProfileManifestV0K \<noteq> ProfileManifestV1K
    \<and> mode_0444 = 292"
  using paths merge applied created encoded
  by (simp add: ApplyProfile_def sys_def Let_def ProfileManifestV0K_def ProfileManifestV1K_def
      ImagesToJSONV0_def mode_0444_def split: option.split)

text \<open>
  C10. When the merged profile is the empty image list (and path setup succeeds, the
  run-profile file can be created, encoded and chmodded), \<^verbatim>\<open>ApplyProfile\<close> goes from
  the profile merge straight to the final step: it makes no call of the per-image
  phase, so the store cache is not constructed and no image is processed; it
  creates the run-profile file, encodes the profile of kind \<^verbatim>\<open>profile-manifest-v0\<close>
  with an empty image list, chmods the file to \<^verbatim>\<open>0444\<close> and returns no error.
\<close>

theorem ApplyProfile_empty_profile:
  assumes paths: "setupPaths env (Some cfg) tr = (None, tr1)"
    and merge: "mergeProfiles env cfg tr1 = (Inr [], tr2)"
    and created: "fails env tr2 (os_Create (RunProfile env cfg)) = None"
    and encoded: "fails env (tr2 @ [os_Create (RunProfile env cfg)])
                    (Encoder_Encode (RunProfile env cfg) '''' ''  ''
                       \<lparr>Kind = ProfileManifestV0K, Value = ImagesToJSONV0 env []\<rparr>) = None"
    and chmodded: "fails env (tr2 @ [os_Create (RunProfile env cfg),
                      Encoder_Encode (RunProfile env cfg) '''' ''  ''
                        \<lparr>Kind = ProfileManifestV0K, Value = ImagesToJSONV0 env []\<rparr>])
                    (os_Chmod (RunProfile env cfg) mode_0444) = None"
  shows "ApplyProfile env (Some cfg) tr =
      (None,
       tr2 @ [os_Create (RunProfile env cfg),
              Encoder_Encode (RunProfile env cfg) '''' ''  ''
                \<lparr>Kind = ''profile-manifest-v0'', Value = \<lparr>Images = []\<rparr>\<rparr>,
              os_Chmod (RunProfile env cfg) mode_0444,
              log_Debug [(''upper profile'', LStr (UpperProfile cfg)),
                         (''sealed profile'', LStr (RunProfile env cfg))] ''profile applied'',
              Writer_Flush (RunProfile env cfg), File_Close (RunProfile env cfg)])
    \<and> filter isImagePhase (snd (ApplyProfile env (Some cfg) tr)) = filter isImagePhase tr"
proof -
  have res: "ApplyProfile env (Some cfg) tr =
      (None,
       tr2 @ [os_Create (RunProfile env cfg),
              Encoder_Encode (RunProfile env cfg) '''' ''  ''
                \<lparr>Kind = ''profile-manifest-v0'', Value = \<lparr>Images = []\<rparr>\<rparr>,
              os_Chmod (RunProfile env cfg) mode_0444,
              log_Debug [(''upper profile'', LStr (UpperProfile cfg)),
                         (''sealed profile'', LStr (RunProfile env cfg))] ''profile applied'',
              Writer_Flush (RunProfile env cfg), File_Close (RunProfile env cfg)])"
    using paths merge created encoded chmodded
    by (simp add: ApplyProfile_def sys_def Let_def ProfileManifestV0K_def ImagesToJSONV0_def)
  have e1: "extends setupCall tr tr1"
    using setupPaths_extends [of tr env "Some cfg"] paths by simp
  have f1: "filter isImagePhase tr1 = filter isImagePhase tr"
  proof (rule extends_filter [OF e1])
    fix c show "setupCall c \<Longrightarrow> \<not> isImagePhase c" by (cases c) simp_all
  qed
  have tr2: "tr2 = tr1 @ [call_mergeProfiles]"
    using merge by (auto simp: mergeProfiles_def)
  show ?thesis using res f1 by (simp add: tr2)
qed

theorem ApplyProfile_writes_run_profile_witness:
  "ApplyProfile (demoEnv [demoImage ''a'']) (Some demoCfg) [] =
     (None,
      snd (applyImages (demoEnv [demoImage ''a'']) (Some demoCfg) [demoImage ''a'']
             (snd (setupPaths (demoEnv [demoImage ''a'']) (Some demoCfg) [])
                @ [call_mergeProfiles]))
      @ [os_Create ''/run/torcx/profile.json'',
         Encoder_Encode ''/run/torcx/profile.json'' '''' ''  ''
           \<lparr>Kind = ''profile-manifest-v0'',
            Value = \<lparr>Images = [[(''name'', ''a''), (''reference'', ''1.0'')]]\<rparr>\<rparr>,
         os_Chmod ''/run/torcx/profile.json'' 292,
         log_Debug [(''upper profile'', LStr ''user''),
                    (''sealed profile'', LStr ''/run/torcx/profile.json'')] ''profile applied'',
         Writer_Flush ''/run/torcx/profile.json'', File_Close ''/run/torcx/profile.json''])"
proof -
  let ?ims = "[demoImage ''a'']"
  let ?env = "demoEnv ?ims"
  let ?tr1 = "snd (setupPaths ?env (Some demoCfg) [])"
  let ?tr2 = "?tr1 @ [call_mergeProfiles]"
  let ?tr3 = "snd (applyImages ?env (Some demoCfg) ?ims ?tr2)"
  have paths: "setupPaths ?env (Some demoCfg) [] = (None, ?tr1)"
    by (simp add: demo_defs)
  have merge: "mergeProfiles ?env demoCfg ?tr1 = (Inr ?ims, ?tr2)"
    by (simp add: mergeProfiles_def demoEnv_def)
  have applied: "(if length ?ims > 0 then applyImages ?env (Some demoCfg) ?ims ?tr2
      else (None, ?tr2)) = (None, ?tr3)"
    by (simp add: demo_defs)
  have created: "fails ?env ?tr3 (os_Create (RunProfile ?env demoCfg)) = None"
    by (simp add: demoEnv_def demoFails_def)
  have encoded: "fails ?env (?tr3 @ [os_Create (RunProfile ?env demoCfg)])
      (Encoder_Encode (RunProfile ?env demoCfg) '''' ''  ''
         \<lparr>Kind = ProfileManifestV0K, Value = ImagesToJSONV0 ?env ?ims\<rparr>) = None"
    by (simp add: demoEnv_def demoFails_def)
  have chmod: "fails ?env tr5 (os_Chmod p m) = None" for tr5 p m
    by (simp add: demoEnv_def demoFails_def)
  have vals: "RunProfile ?env demoCfg = ''/run/torcx/profile.json''"
    "ToJSONV0 ?env (demoImage ''a'') = [(''name'', ''a''), (''reference'', ''1.0'')]"
    "UpperProfile demoCfg = ''user''"
    by (simp_all add: demoEnv_def demoCfg_def demoImage_def)
  show ?thesis
    using ApplyProfile_writes_run_profile [OF paths merge applied created encoded]
    by (simp add: Let_def chmod vals)
qed

theorem ApplyProfile_empty_profile_witness:
  "ApplyProfile (demoEnv []) (Some demoCfg) [] =
     (None,
      snd (setupPaths (demoEnv []) (Some demoCfg) [])
      @ [call_mergeProfiles,
         os_Create ''/run/torcx/profile.json'',
         Encoder_Encode ''/run/torcx/profile.json'' '''' ''  ''
           \<lparr>Kind = ''profile-manifest-v0'', Value = \<lparr>Images = []\<rparr>\<rparr>,
         os_Chmod ''/run/torcx/profile.json'' mode_0444,
         log_Debug [(''upper profile'', LStr ''user''),
                    (''sealed profile'', LStr ''/run/torcx/profile.json'')] ''profile applied'',
         Writer_Flush ''/run/torcx/profile.json'', File_Close ''/run/torcx/profile.json''])
   \<and> filter isImagePhase (snd (ApplyProfile (demoEnv []) (Some demoCfg) [])) = []"
proof -
  let ?env = "demoEnv [] :: unit Env"
  let ?tr1 = "snd (setupPaths ?env (Some demoCfg) [])"
  let ?tr2 = "?tr1 @ [call_mergeProfiles]"
  have paths: "setupPaths ?env (Some demoCfg) [] = (None, ?tr1)"
    by (simp add: demo_defs)
  have merge: "mergeProfiles ?env demoCfg ?tr1 = (Inr [], ?tr2)"
    by (simp add: mergeProfiles_def demoEnv_def)
  have created: "fails ?env t (os_Create p) = None" for t p
    by (simp add: demoEnv_def demoFails_def)
  have encoded: "fails ?env t (Encoder_Encode p pre ind v) = None" for t p pre ind v
    by (simp add: demoEnv_def demoFails_def)
  have chmodded: "fails ?env t (os_Chmod p m) = None" for t p m
    by (simp add: demoEnv_def demoFails_def)
  have vals: "RunProfile ?env demoCfg = ''/run/torcx/profile.json''"
    "UpperProfile demoCfg = ''user''"
    by (simp_all add: demoEnv_def demoCfg_def)
  note run = ApplyProfile_empty_profile [OF paths merge created encoded chmodded]
  show ?thesis
  proof (rule conjI)
    show "ApplyProfile (demoEnv []) (Some demoCfg) [] =
      (None,
       snd (setupPaths (demoEnv []) (Some demoCfg) [])
       @ [call_mergeProfiles,
          os_Create ''/run/torcx/profile.json'',
          Encoder_Encode ''/run/torcx/profile.json'' [] ''  ''
            \<lparr>Kind = ''profile-manifest-v0'', Value = \<lparr>Images = []\<rparr>\<rparr>,
          os_Chmod ''/run/torcx/profile.json'' mode_0444,
          log_Debug [(''upper profile'', LStr ''user''),
                     (''sealed profile'', LStr ''/run/torcx/profile.json'')] ''profile applied'',
          Writer_Flush ''/run/torcx/profile.json'', File_Close ''/run/torcx/profile.json''])"
      using run [THEN conjunct1] by (simp add: vals)
    show "filter isImagePhase (snd (ApplyProfile (demoEnv []) (Some demoCfg) [])) = []"
      using run [THEN conjunct2] by simp
  qed
qed

text \<open>
  C7. \<^verbatim>\<open>ApplyProfile\<close> called with a nil configuration returns the error
  \<^verbatim>\<open>missing apply configuration\<close> and makes no call at all: the trace is unchanged, so
  no directory is created, nothing is mounted, and no file is written or chmodded.
\<close>

theorem ApplyProfile_nil:
  "ApplyProfile env None tr = (Some (ErrNew ''missing apply configuration''), tr)"
  by (simp add: ApplyProfile_def)

section \<open>Claims about sealing\<close>

lemma writeLines_ok:
  "fst (writeLines env path ls tr) = None \<Longrightarrow>
   snd (writeLines env path ls tr) = tr @ map (\<lambda>l. File_WriteString path (l @ [CHR 0x0A])) ls"
proof (induction ls arbitrary: tr)
  case Nil
  show ?case by simp
next
  case (Cons l ls)
  show ?case
  proof (cases "fails env tr (File_WriteString path (l @ [CHR 0x0A]))")
    case (Some e)
    with Cons.prems show ?thesis by (simp add: sys_def)
  next
    case None
    with Cons.prems Cons.IH [of "tr @ [File_WriteString path (l @ [CHR 0x0A])]"]
    show ?thesis by (simp add: sys_def)
  qed
qed

lemma quoteByte_plain: "plainByte c \<Longrightarrow> quoteByte c = [c]"
  by (simp add: plainByte_def quoteByte_def Let_def)

lemma Quote_plain: "list_all plainByte v \<Longrightarrow> Quote env v = [CHR 0x22] @ v @ [CHR 0x22]"
proof -
  assume p: "list_all plainByte v"
  then have "concat (map quoteByte v) = v"
    by (induction v) (simp_all add: quoteByte_plain)
  moreover have "list_all (\<lambda>c. (of_char c :: nat) < 0x80) v"
    using p by (induction v) (simp_all add: plainByte_def)
  ultimately show ?thesis by (simp add: Quote_def)
qed

text \<open>
  C5. When the parent directory of the seal file is there or has been made, the seal
  file is created and the writes succeed, \<^verbatim>\<open>SealSystemState\<close> writes exactly five
  lines \<^verbatim>\<open>KEY=\<close> and the quoted value, each ended by a newline, in this order: the
  lower profiles joined with \<^verbatim>\<open>:\<close>, the upper profile, the run-profile path, the bin
  directory, the unpack directory. A value of printable ASCII without quote and
  backslash is quoted by putting it between two double quotes. After the writes it
  remounts the unpack directory on itself with the flags \<^verbatim>\<open>MS_REMOUNT|MS_RDONLY\<close>, and
  when that mount fails it returns the error wrapped as
  \<^verbatim>\<open>failed to remount read-only\<close>; otherwise it returns no error.
\<close>

theorem SealSystemState_record:
  assumes dir: "statMkdirAll env (filepath_Dir env (SealPath env)) tr = (None, tr1)"
    and created: "fails env tr1 (os_Create (SealPath env)) = None"
    and written: "fst (writeLines env (SealPath env) (sealContent env cfg)
                         (tr1 @ [os_Create (SealPath env)])) = None"
  shows "(let content =
            [SealLowerProfiles env @ ''='' @ Quote env (Join (LowerProfiles cfg) '':''),
             SealUpperProfile env @ ''='' @ Quote env (UpperProfile cfg),
             SealRunProfilePath env @ ''='' @ Quote env (RunProfile env cfg),
             SealBindir env @ ''='' @ Quote env (RunBinDir env cfg),
             SealUnpackdir env @ ''='' @ Quote env (RunUnpackDir env cfg)];
            tr3 = tr1 @ os_Create (SealPath env)
                    # map (\<lambda>l. File_WriteString (SealPath env) (l @ [CHR 0x0A])) content;
            remount = unix_Mount (RunUnpackDir env cfg) (RunUnpackDir env cfg) '''' 33 ''''
          in SealSystemState env (Some cfg) tr =
             (case fails env tr3 remount of
                Some err \<Rightarrow>
                  (Some (ErrWrap err ''failed to remount read-only''),
                   tr3 @ [remount, File_Close (SealPath env)])
              | None \<Rightarrow>
                  (None,
                   tr3 @ [remount,
                          log_Debug [(''path'', LStr (SealPath env)), (''content'', LList content)]
                            ''system state sealed'',
                          File_Close (SealPath env)])))
    \<and> MS_REMOUNT OR MS_RDONLY = (33 :: 64 word)
    \<and> (list_all plainByte v \<longrightarrow> Quote env v = [CHR 0x22] @ v @ [CHR 0x22])"
proof -
  let ?content = "sealContent env cfg"
  let ?tr2 = "tr1 @ [os_Create (SealPath env)]"
  let ?tr3 = "?tr2 @ map (\<lambda>l. File_WriteString (SealPath env) (l @ [CHR 0x0A])) ?content"
  have flags: "MS_REMOUNT OR MS_RDONLY = (33 :: 64 word)"
    by (simp add: MS_REMOUNT_def MS_RDONLY_def)
  have w: "writeLines env (SealPath env) ?content ?tr2 = (None, ?tr3)"
    using written writeLines_ok [OF written]
    by (cases "writeLines env (SealPath env) ?content ?tr2") simp
  show ?thesis
    using dir created w flags Quote_plain [of v env]
    by (simp add: SealSystemState_def sys_def sealContent_def sealLine_def Let_def
        split: option.split)
qed

theorem SealSystemState_record_witness:
  "(let l1 = ''TORCX_LOWER_PROFILES='' @ [CHR 0x22] @ ''vendor:oem'' @ [CHR 0x22];
        l2 = ''TORCX_UPPER_PROFILE='' @ [CHR 0x22] @ ''user'' @ [CHR 0x22];
        l3 = ''TORCX_PROFILE_PATH='' @ [CHR 0x22] @ ''/run/torcx/profile.json'' @ [CHR 0x22];
        l4 = ''TORCX_BINDIR='' @ [CHR 0x22] @ ''/run/torcx/bin'' @ [CHR 0x22];
        l5 = ''TORCX_UNPACKDIR='' @ [CHR 0x22] @ ''/run/torcx/unpack'' @ [CHR 0x22]
    in SealSystemState (demoEnv []) (Some demoCfg) [] =
       (None,
        [os_Stat ''/run/metadata'', os_MkdirAll ''/run/metadata'' mode_0755,
         os_Create ''/run/metadata/torcx'',
         File_WriteString ''/run/metadata/torcx'' (l1 @ [CHR 0x0A]),
         File_WriteString ''/run/metadata/torcx'' (l2 @ [CHR 0x0A]),
         File_WriteString ''/run/metadata/torcx'' (l3 @ [CHR 0x0A]),
         File_WriteString ''/run/metadata/torcx'' (l4 @ [CHR 0x0A]),
         File_WriteString ''/run/metadata/torcx'' (l5 @ [CHR 0x0A]),
         unix_Mount ''/run/torcx/unpack'' ''/run/torcx/unpack'' '''' 33 '''',
         log_Debug [(''path'', LStr ''/run/metadata/torcx''),
                    (''content'', LList [l1, l2, l3, l4, l5])] ''system state sealed'',
         File_Close ''/run/metadata/torcx'']))
   \<and> Quote (demoEnv []) ''user'' = [CHR 0x22] @ ''user'' @ [CHR 0x22]"
proof -
  let ?env = "demoEnv [] :: unit Env"
  let ?tr1 = "[os_Stat ''/run/metadata'', os_MkdirAll ''/run/metadata'' mode_0755]"
  have dir: "statMkdirAll ?env (filepath_Dir ?env (SealPath ?env)) [] = (None, ?tr1)"
    by (simp add: statMkdirAll_def sys_def demoEnv_def demoFails_def IsNotExist_def)
  have created: "fails ?env ?tr1 (os_Create (SealPath ?env)) = None"
    by (simp add: demoEnv_def demoFails_def)
  have written: "fst (writeLines ?env (SealPath ?env) (sealContent ?env demoCfg)
      (?tr1 @ [os_Create (SealPath ?env)])) = None"
    by (simp add: sealContent_def sys_def demoEnv_def demoFails_def)
  have plain: "list_all plainByte ''user''"
    by (simp add: plainByte_def)
  have vals: "SealPath ?env = ''/run/metadata/torcx''"
    "SealLowerProfiles ?env = ''TORCX_LOWER_PROFILES''"
    "SealUpperProfile ?env = ''TORCX_UPPER_PROFILE''"
    "SealRunProfilePath ?env = ''TORCX_PROFILE_PATH''"
    "SealBindir ?env = ''TORCX_BINDIR''"
    "SealUnpackdir ?env = ''TORCX_UNPACKDIR''"
    "Join (LowerProfiles demoCfg) '':'' = ''vendor:oem''"
    "UpperProfile demoCfg = ''user''"
    "RunProfile ?env demoCfg = ''/run/torcx/profile.json''"
    "RunBinDir ?env demoCfg = ''/run/torcx/bin''"
    "RunUnpackDir ?env demoCfg = ''/run/torcx/unpack''"
    by (simp_all add: demoCfg_def demoEnv_def)
  have q: "Quote ?env s = [CHR 0x22] @ s @ [CHR 0x22]" if "list_all plainByte s" for s
    using that by (rule Quote_plain)
  have qs: "Quote ?env ''vendor:oem'' = [CHR 0x22] @ ''vendor:oem'' @ [CHR 0x22]"
    "Quote ?env ''user'' = [CHR 0x22] @ ''user'' @ [CHR 0x22]"
    "Quote ?env ''/run/torcx/profile.json'' = [CHR 0x22] @ ''/run/torcx/profile.json'' @ [CHR 0x22]"
    "Quote ?env ''/run/torcx/bin'' = [CHR 0x22] @ ''/run/torcx/bin'' @ [CHR 0x22]"
    "Quote ?env ''/run/torcx/unpack'' = [CHR 0x22] @ ''/run/torcx/unpack'' @ [CHR 0x22]"
    by (simp_all add: q plainByte_def)
  have ok: "fails ?env t (unix_Mount a b c d e) = None" for t a b c d e
    by (simp add: demoEnv_def demoFails_def)
  show ?thesis
    using SealSystemState_record [OF dir created written, of "''user''"] plain
    by (simp add: vals qs ok Let_def)
qed

end
